theory Spec2Isabelle
  imports Main
begin

section \<open>Security group rules: identity and reconciliation\<close>

text \<open>
  A shallow embedding of \<^verbatim>\<open>exoscale/resource_exoscale_security_group_rules.go\<close>:
  \<^verbatim>\<open>ruleToID\<close>, \<^verbatim>\<open>preparePorts\<close>, \<^verbatim>\<open>securityGroupRulesToAdd\<close>,
  \<^verbatim>\<open>securityGroupRulesToRemove\<close>, \<^verbatim>\<open>readRules\<close> and the rule loops of the create and
  update passes.

  Conventions.
  \<^item> Strings are byte lists. \<^verbatim>\<open>strings.ToLower\<close> and \<^verbatim>\<open>strings.ToUpper\<close> are modelled on
    the ASCII letters, which is what they do on ASCII input.
  \<^item> A Go pointer field is an \<open>option\<close>; dereferencing \<open>nil\<close> panics, which the model
    returns as the error \<open>NilDereference\<close>.
  \<^item> A \<^verbatim>\<open>*schema.Set\<close> of strings is the list that its \<^verbatim>\<open>List()\<close> enumerates;
    \<^verbatim>\<open>Len()\<close> is the length, \<^verbatim>\<open>Add\<close> appends an element that is not yet a member and
    \<^verbatim>\<open>Remove\<close> deletes it. Theorems quantify over every input list, hence over every
    enumeration order of the input sets.
  \<^item> \<^verbatim>\<open>uint16\<close> ports are naturals and \<^verbatim>\<open>int64\<close> ICMP fields are integers: the code
    only parses, compares and prints them.
  \<^item> The API client and \<^verbatim>\<open>net.ParseCIDR\<close> are parameters, collected in the record
    \<open>Client\<close>. A \<^verbatim>\<open>*net.IPNet\<close> is represented by the text its \<^verbatim>\<open>String()\<close> prints.
\<close>

subsection \<open>Data\<close>

datatype error =
    APIError string
  | Wrapped string error
  | NilDereference
  | IndexOutOfRange

record SecurityGroupRule =
  Description :: "string option"
  EndPort :: "nat option"
  FlowDirection :: "string option"
  ICMPCode :: "int option"
  ICMPType :: "int option"
  ID :: "string option"
  Network :: "string option"
  Protocol :: "string option"
  SecurityGroupID :: "string option"
  StartPort :: "nat option"

record SecurityGroup =
  sgID :: "string option"
  sgName :: "string option"

record Client =
  GetSecurityGroup :: "string \<Rightarrow> error + SecurityGroup"
  FindSecurityGroup :: "string \<Rightarrow> error + SecurityGroup"
  CreateSecurityGroupRule :: "SecurityGroup \<Rightarrow> SecurityGroupRule \<Rightarrow> error + SecurityGroupRule"
  ParseCIDR :: "string \<Rightarrow> error + string"

text \<open>The rule block of the schema (\<^verbatim>\<open>map[string]interface{}\<close> keyed by attribute name).\<close>

record RuleTemplate =
  cidr_list :: "string list"
  description :: string
  icmp_code :: int
  icmp_type :: int
  ports :: "string list"
  protocol :: string
  user_security_group_list :: "string list"
  ids :: "string list"

text \<open>The zero value \<^verbatim>\<open>egoscale.SecurityGroupRule{}\<close>.\<close>

definition emptyRule :: SecurityGroupRule where
  "emptyRule = \<lparr>Description = None, EndPort = None, FlowDirection = None, ICMPCode = None,
     ICMPType = None, ID = None, Network = None, Protocol = None, SecurityGroupID = None,
     StartPort = None\<rparr>"

subsection \<open>Library functions of Go used by the code\<close>

definition lowerChar :: "char \<Rightarrow> char" where
  "lowerChar c =
     (case map_of (zip ''ABCDEFGHIJKLMNOPQRSTUVWXYZ'' ''abcdefghijklmnopqrstuvwxyz'') c of
        Some d \<Rightarrow> d | None \<Rightarrow> c)"

definition upperChar :: "char \<Rightarrow> char" where
  "upperChar c =
     (case map_of (zip ''abcdefghijklmnopqrstuvwxyz'' ''ABCDEFGHIJKLMNOPQRSTUVWXYZ'') c of
        Some d \<Rightarrow> d | None \<Rightarrow> c)"

definition ToLower :: "string \<Rightarrow> string" where
  "ToLower s = map lowerChar s"

definition ToUpper :: "string \<Rightarrow> string" where
  "ToUpper s = map upperChar s"

definition HasPrefix :: "string \<Rightarrow> string \<Rightarrow> bool" where
  "HasPrefix s p = (take (length p) s = p)"

text \<open>\<^verbatim>\<open>%d\<close> of \<^verbatim>\<open>fmt.Sprintf\<close>: decimal digits, with a minus sign for a negative value.\<close>

fun decimal :: "nat \<Rightarrow> string" where
  "decimal n =
     (if n < 10 then [''0123456789'' ! n]
      else decimal (n div 10) @ [''0123456789'' ! (n mod 10)])"

declare decimal.simps [simp del]

definition fmt_d :: "int \<Rightarrow> string" where
  "fmt_d i = (if i < 0 then CHR ''-'' # decimal (nat (- i)) else decimal (nat i))"

subsection \<open>\<^verbatim>\<open>ruleToID\<close>\<close>

definition ruleToID :: "Client \<Rightarrow> SecurityGroupRule \<Rightarrow> error + string" where
  "ruleToID client securityGroupRule =
     (case Protocol securityGroupRule of
        None \<Rightarrow> Inl NilDereference
      | Some proto \<Rightarrow>
          let protocol = ToLower proto in
          if HasPrefix protocol ''icmp'' then
            (case (ID securityGroupRule, ICMPType securityGroupRule, ICMPCode securityGroupRule) of
               (Some i, Some t, Some c) \<Rightarrow>
                 Inr (i @ ''_'' @ protocol @ ''_'' @ fmt_d t @ '':'' @ fmt_d c)
             | _ \<Rightarrow> Inl NilDereference)
          else
            (case (case Network securityGroupRule of
                     Some n \<Rightarrow> Inr n
                   | None \<Rightarrow>
                       (case SecurityGroupID securityGroupRule of
                          None \<Rightarrow> Inl NilDereference
                        | Some g \<Rightarrow>
                            (case GetSecurityGroup client g of
                               Inl e \<Rightarrow> Inl (Wrapped ''unable to retrieve Security Group: '' e)
                             | Inr userSecurityGroup \<Rightarrow>
                                 (case sgName userSecurityGroup of
                                    None \<Rightarrow> Inl NilDereference
                                  | Some n \<Rightarrow> Inr n)))) of
               Inl e \<Rightarrow> Inl e
             | Inr name \<Rightarrow>
                 if protocol = ''tcp'' \<or> protocol = ''udp'' then
                   (case (ID securityGroupRule, StartPort securityGroupRule,
                          EndPort securityGroupRule) of
                      (Some i, Some s, Some e) \<Rightarrow>
                        Inr (i @ ''_'' @ proto @ ''_'' @ name @ ''_'' @ decimal s @ ''-'' @ decimal e)
                    | _ \<Rightarrow> Inl NilDereference)
                 else
                   (case ID securityGroupRule of
                      Some i \<Rightarrow> Inr (i @ ''_'' @ proto @ ''_'' @ name)
                    | None \<Rightarrow> Inl NilDereference)))"

subsection \<open>Sets of the schema, and helpers of the package\<close>

definition set_Add :: "'a \<Rightarrow> 'a list \<Rightarrow> 'a list" where
  "set_Add x s = (if x \<in> set s then s else s @ [x])"

definition set_Remove :: "'a \<Rightarrow> 'a list \<Rightarrow> 'a list" where
  "set_Remove x s = removeAll x s"

text \<open>
  Modelled from the spec: the helpers \<^verbatim>\<open>nonEmptyStringPtr\<close> and \<^verbatim>\<open>defaultString\<close> are
  defined in a file of the package that is not among the sources. The spec does not
  describe them, so they follow their names and their use here: a pointer to a non-empty
  string or \<open>nil\<close>, and the pointed-to string or a default.
\<close>

definition nonEmptyStringPtr :: "string \<Rightarrow> string option" where
  "nonEmptyStringPtr s = (if s = [] then None else Some s)"

definition defaultString :: "string option \<Rightarrow> string \<Rightarrow> string" where
  "defaultString v def = (case v of Some s \<Rightarrow> s | None \<Rightarrow> def)"

text \<open>Loops that return at the first error.\<close>

fun mapE :: "('a \<Rightarrow> error + 'b) \<Rightarrow> 'a list \<Rightarrow> error + 'b list" where
  "mapE f [] = Inr []"
| "mapE f (x # xs) =
     (case f x of
        Inl e \<Rightarrow> Inl e
      | Inr y \<Rightarrow> (case mapE f xs of Inl e \<Rightarrow> Inl e | Inr ys \<Rightarrow> Inr (y # ys)))"

fun foldE :: "('s \<Rightarrow> 'a \<Rightarrow> error + 's) \<Rightarrow> 's \<Rightarrow> 'a list \<Rightarrow> error + 's" where
  "foldE f s [] = Inr s"
| "foldE f s (x # xs) = (case f s x of Inl e \<Rightarrow> Inl e | Inr s' \<Rightarrow> foldE f s' xs)"

subsection \<open>\<^verbatim>\<open>preparePorts\<close>\<close>

text \<open>\<^verbatim>\<open>strings.Split(s, "-")\<close> for a one-byte separator: never empty.\<close>

fun Split :: "string \<Rightarrow> char \<Rightarrow> string list" where
  "Split [] sep = [[]]"
| "Split (c # s) sep =
     (if c = sep then [] # Split s sep
      else (case Split s sep of p # ps \<Rightarrow> (c # p) # ps | [] \<Rightarrow> [[c]]))"

definition digitVal :: "char \<Rightarrow> nat option" where
  "digitVal c = map_of (zip ''0123456789'' [0, 1, 2, 3, 4, 5, 6, 7, 8, 9]) c"

text \<open>
  The value \<^verbatim>\<open>strconv.ParseUint(s, 10, 16)\<close> returns beside its error, which
  \<^verbatim>\<open>preparePorts\<close> drops: 0 at a syntax error, 65535 as soon as the number leaves the
  range.
\<close>

fun parseUintLoop :: "nat \<Rightarrow> string \<Rightarrow> nat" where
  "parseUintLoop n [] = n"
| "parseUintLoop n (c # s) =
     (case digitVal c of
        None \<Rightarrow> 0
      | Some d \<Rightarrow> (if n * 10 + d > 65535 then 65535 else parseUintLoop (n * 10 + d) s))"

definition ParseUint16 :: "string \<Rightarrow> nat" where
  "ParseUint16 s = (if s = [] then 0 else parseUintLoop 0 s)"

definition preparePort :: "string \<Rightarrow> nat \<times> nat" where
  "preparePort v =
     (let ps = Split v (CHR ''-'');
          startPort = ParseUint16 (hd ps);
          endPort = (if length ps = 2 then ParseUint16 (ps ! 1) else startPort)
      in (startPort, endPort))"

definition preparePorts :: "string list \<Rightarrow> (nat \<times> nat) list" where
  "preparePorts values = map preparePort values"

subsection \<open>\<^verbatim>\<open>securityGroupRulesToRemove\<close>\<close>

text \<open>\<^verbatim>\<open>strings.SplitN(s, "_", 2)\<close>: at most two parts, cut at the first separator.\<close>

definition SplitN2 :: "string \<Rightarrow> char \<Rightarrow> string list" where
  "SplitN2 s sep =
     (if sep \<in> set s
      then [takeWhile (\<lambda>c. c \<noteq> sep) s, tl (dropWhile (\<lambda>c. c \<noteq> sep) s)]
      else [s])"

definition removeStep ::
  "(string \<rightharpoonup> SecurityGroupRule) \<Rightarrow> string \<Rightarrow> error + (string \<rightharpoonup> SecurityGroupRule)" where
  "removeStep rules identifier =
     (case SplitN2 identifier (CHR ''_'') of
        [] \<Rightarrow> Inl IndexOutOfRange
      | backingID # _ \<Rightarrow> Inr (rules(identifier \<mapsto> emptyRule\<lparr>ID := Some backingID\<rparr>)))"

definition securityGroupRulesToRemove ::
  "RuleTemplate \<Rightarrow> error + (string \<rightharpoonup> SecurityGroupRule)" where
  "securityGroupRulesToRemove rule = foldE removeStep Map.empty (ids rule)"

subsection \<open>\<^verbatim>\<open>securityGroupRulesToAdd\<close>\<close>

definition baseRules :: "RuleTemplate \<Rightarrow> SecurityGroupRule list" where
  "baseRules rule =
     (let proto = ToLower (protocol rule);
          securityGroupRule = emptyRule\<lparr>Description := nonEmptyStringPtr (description rule)\<rparr>
      in if HasPrefix proto ''icmp'' then
           [securityGroupRule\<lparr>Protocol := Some proto, ICMPCode := Some (icmp_code rule),
              ICMPType := Some (icmp_type rule)\<rparr>]
         else if proto = ''tcp'' \<or> proto = ''udp'' then
           map (\<lambda>portRange. securityGroupRule\<lparr>Protocol := Some proto,
                  StartPort := Some (fst portRange), EndPort := Some (snd portRange)\<rparr>)
             (preparePorts (ports rule))
         else [securityGroupRule\<lparr>Protocol := Some proto\<rparr>])"

definition expandCIDR :: "Client \<Rightarrow> SecurityGroupRule \<Rightarrow> string \<Rightarrow> error + SecurityGroupRule" where
  "expandCIDR client er c =
     (case ParseCIDR client c of
        Inl e \<Rightarrow> Inl e
      | Inr network \<Rightarrow> Inr (er\<lparr>Network := Some network\<rparr>))"

text \<open>The message of \<^verbatim>\<open>%q\<close> is modelled for names that need no escaping.\<close>

definition expandGroup :: "Client \<Rightarrow> SecurityGroupRule \<Rightarrow> string \<Rightarrow> error + SecurityGroupRule" where
  "expandGroup client er x =
     (case FindSecurityGroup client x of
        Inl e \<Rightarrow>
          Inl (Wrapped (''unable to retrieve Security Group '' @ [CHR 0x22] @ x @ [CHR 0x22]
                 @ '': '') e)
      | Inr userSecurityGroup \<Rightarrow> Inr (er\<lparr>SecurityGroupID := sgID userSecurityGroup\<rparr>))"

definition securityGroupRulesToAdd :: "Client \<Rightarrow> RuleTemplate \<Rightarrow> error + SecurityGroupRule list" where
  "securityGroupRulesToAdd client rule =
     (case mapE (\<lambda>r. mapE (expandCIDR client r) (cidr_list rule)) (baseRules rule) of
        Inl e \<Rightarrow> Inl e
      | Inr byCIDR \<Rightarrow>
          (case mapE (\<lambda>r. mapE (expandGroup client r) (user_security_group_list rule))
                  (baseRules rule) of
             Inl e \<Rightarrow> Inl e
           | Inr byGroup \<Rightarrow> Inr (concat byCIDR @ concat byGroup)))"

subsection \<open>\<^verbatim>\<open>readRules\<close>\<close>

text \<open>\<^verbatim>\<open>strings.ReplaceAll(s, "V6", "v6")\<close>.\<close>

fun ReplaceAll_V6 :: "string \<Rightarrow> string" where
  "ReplaceAll_V6 (a # b # s) =
     (if a = CHR ''V'' \<and> b = CHR ''6'' then CHR ''v'' # CHR ''6'' # ReplaceAll_V6 s
      else a # ReplaceAll_V6 (b # s))"
| "ReplaceAll_V6 s = s"

text \<open>
  The variables of one pass of the outer loop: the rule block under mutation, the counter
  and the four sets. \<open>w_ids\<close> is the set \<^verbatim>\<open>rule["ids"]\<close>, which the walk shrinks in place.
\<close>

record Walk =
  w_rule :: RuleTemplate
  w_actualLen :: nat
  w_cidrList :: "string list"
  w_userSecurityGroupList :: "string list"
  w_ports :: "string list"
  w_ids :: "string list"

type_synonym fetchRuleFunc = "string \<Rightarrow> SecurityGroupRule option"

definition portText :: "SecurityGroupRule \<Rightarrow> string" where
  "portText r =
     (let startPort = (case StartPort r of Some s \<Rightarrow> s | None \<Rightarrow> 0);
          endPort = (case EndPort r of Some e \<Rightarrow> e | None \<Rightarrow> 0)
      in if startPort = endPort then decimal startPort
         else decimal startPort @ ''-'' @ decimal endPort)"

definition readRuleStep :: "Client \<Rightarrow> fetchRuleFunc \<Rightarrow> Walk \<Rightarrow> string \<Rightarrow> error + Walk" where
  "readRuleStep client ruleFunc w key =
     (case ruleFunc key of
        None \<Rightarrow> Inr (w\<lparr>w_ids := set_Remove key (w_ids w)\<rparr>)
      | Some r \<Rightarrow>
          (case Protocol r of
             None \<Rightarrow> Inl NilDereference
           | Some p \<Rightarrow>
               let proto = ToUpper p;
                   rule1 = (w_rule w)\<lparr>protocol := proto,
                              description := defaultString (Description r) []\<rparr>;
                   cidrList1 = (case Network r of
                                  Some n \<Rightarrow> set_Add n (w_cidrList w)
                                | None \<Rightarrow> w_cidrList w)
               in (case (case SecurityGroupID r of
                           None \<Rightarrow> Inr (w_userSecurityGroupList w)
                         | Some g \<Rightarrow>
                             (case GetSecurityGroup client g of
                                Inl e \<Rightarrow> Inl (Wrapped ''unable to retrieve Security Group: '' e)
                              | Inr userSecurityGroup \<Rightarrow>
                                  (case sgName userSecurityGroup of
                                     None \<Rightarrow> Inl NilDereference
                                   | Some n \<Rightarrow> Inr (set_Add n (w_userSecurityGroupList w))))) of
                     Inl e \<Rightarrow> Inl e
                   | Inr groups1 \<Rightarrow>
                       let w1 = w\<lparr>w_rule := rule1, w_actualLen := w_actualLen w + 1,
                                  w_cidrList := cidrList1, w_userSecurityGroupList := groups1\<rparr>
                       in if HasPrefix proto ''ICMP'' then
                            (case (ICMPCode r, ICMPType r) of
                               (Some c, Some t) \<Rightarrow>
                                 Inr (w1\<lparr>w_rule := rule1\<lparr>protocol := ReplaceAll_V6 proto,
                                            icmp_code := c, icmp_type := t\<rparr>\<rparr>)
                             | _ \<Rightarrow> Inl NilDereference)
                          else if proto = ''TCP'' \<or> proto = ''UDP'' then
                            Inr (w1\<lparr>w_ports := set_Add (portText r) (w_ports w)\<rparr>)
                          else Inr w1)))"

definition walkInit :: "RuleTemplate \<Rightarrow> Walk" where
  "walkInit rule = \<lparr>w_rule = rule, w_actualLen = 0, w_cidrList = [],
     w_userSecurityGroupList = [], w_ports = [], w_ids = ids rule\<rparr>"

definition walk :: "Client \<Rightarrow> fetchRuleFunc \<Rightarrow> RuleTemplate \<Rightarrow> error + Walk" where
  "walk client ruleFunc rule = foldE (readRuleStep client ruleFunc) (walkInit rule) (ids rule)"

text \<open>The body of the outer loop of \<^verbatim>\<open>readRules\<close>, for one rule block.\<close>

definition readRule :: "Client \<Rightarrow> fetchRuleFunc \<Rightarrow> RuleTemplate \<Rightarrow> error + RuleTemplate" where
  "readRule client ruleFunc rule =
     (let cidrLen = length (cidr_list rule);
          userSecurityGroupLen = length (user_security_group_list rule);
          portsLen = length (ports rule);
          expectedLen = (cidrLen + userSecurityGroupLen) * portsLen
      in case walk client ruleFunc rule of
           Inl e \<Rightarrow> Inl e
         | Inr w \<Rightarrow>
             Inr ((w_rule w)\<lparr>
               ids := w_ids w,
               ports := (if length (w_cidrList w) = cidrLen \<and> length (w_ports w) = portsLen
                            \<and> length (w_userSecurityGroupList w) = userSecurityGroupLen
                            \<and> expectedLen \<noteq> w_actualLen w
                         then [] else w_ports w),
               cidr_list := w_cidrList w,
               user_security_group_list := w_userSecurityGroupList w\<rparr>))"

fun readRulesLoop ::
  "Client \<Rightarrow> fetchRuleFunc \<Rightarrow> RuleTemplate list \<Rightarrow> RuleTemplate list \<Rightarrow> error + RuleTemplate list" where
  "readRulesLoop client ruleFunc rules [] = Inr rules"
| "readRulesLoop client ruleFunc rules (r # rs) =
     (case readRule client ruleFunc r of
        Inl e \<Rightarrow> Inl e
      | Inr rule \<Rightarrow> readRulesLoop client ruleFunc (set_Add rule (set_Remove r rules)) rs)"

definition readRules :: "Client \<Rightarrow> RuleTemplate list \<Rightarrow> fetchRuleFunc \<Rightarrow> error + RuleTemplate list" where
  "readRules client rules ruleFunc = readRulesLoop client ruleFunc rules rules"

subsection \<open>The rule loops of the create and update passes\<close>

text \<open>
  A nil dereference or an index out of range is a panic, which no caller here recovers;
  the other errors are values a function returns.
\<close>

definition isPanic :: "error \<Rightarrow> bool" where
  "isPanic e = (e = NilDereference \<or> e = IndexOutOfRange)"

text \<open>
  The loop over \<^verbatim>\<open>rulesToAdd\<close> in \<^verbatim>\<open>resourceSecurityGroupRulesCreate\<close>. An error that
  \<^verbatim>\<open>ruleToID\<close> returns is passed to \<^verbatim>\<open>diag.FromErr\<close> and the result is dropped, so the
  loop goes on with the identifier that \<^verbatim>\<open>ruleToID\<close> returned beside the error, the empty
  string. A panic inside \<^verbatim>\<open>ruleToID\<close> is not an error value and ends the pass.
\<close>

fun createLoop ::
  "Client \<Rightarrow> SecurityGroup \<Rightarrow> string \<Rightarrow> string list \<Rightarrow> SecurityGroupRule list \<Rightarrow> error + string list" where
  "createLoop client securityGroup flowDirection ids0 [] = Inr ids0"
| "createLoop client securityGroup flowDirection ids0 (ruleToAdd # rest) =
     (case CreateSecurityGroupRule client securityGroup
             (ruleToAdd\<lparr>FlowDirection := nonEmptyStringPtr flowDirection\<rparr>) of
        Inl e \<Rightarrow> Inl e
      | Inr securityGroupRule \<Rightarrow>
          (case ruleToID client securityGroupRule of
             Inl e \<Rightarrow>
               if isPanic e then Inl e
               else createLoop client securityGroup flowDirection (set_Add [] ids0) rest
           | Inr key \<Rightarrow>
               createLoop client securityGroup flowDirection (set_Add key ids0) rest))"

text \<open>
  The rule block part of the create pass. \<^verbatim>\<open>strings.ToLower\<close> is modelled on ASCII letters
  (see the conventions), so the lower-casing of the peer group names is that of the code
  for ASCII names only.
\<close>

definition createRule ::
  "Client \<Rightarrow> SecurityGroup \<Rightarrow> string \<Rightarrow> RuleTemplate \<Rightarrow> error + RuleTemplate" where
  "createRule client securityGroup flowDirection rule =
     (let rule1 = rule\<lparr>user_security_group_list :=
                    foldl (\<lambda>s x. set_Add (ToLower x) s) [] (user_security_group_list rule)\<rparr>
      in case securityGroupRulesToAdd client rule1 of
           Inl e \<Rightarrow> Inl e
         | Inr rulesToAdd \<Rightarrow>
             (case createLoop client securityGroup flowDirection (ids rule1) rulesToAdd of
                Inl e \<Rightarrow> Inl e
              | Inr ids1 \<Rightarrow> Inr (rule1\<lparr>ids := ids1\<rparr>)))"

text \<open>The same loop in \<^verbatim>\<open>resourceSecurityGroupRulesUpdate\<close>, which returns the error.\<close>

fun updateLoop ::
  "Client \<Rightarrow> SecurityGroup \<Rightarrow> string \<Rightarrow> string list \<Rightarrow> SecurityGroupRule list \<Rightarrow> error + string list" where
  "updateLoop client securityGroup flowDirection ids0 [] = Inr ids0"
| "updateLoop client securityGroup flowDirection ids0 (ruleToAdd # rest) =
     (case CreateSecurityGroupRule client securityGroup
             (ruleToAdd\<lparr>FlowDirection := nonEmptyStringPtr flowDirection\<rparr>) of
        Inl e \<Rightarrow> Inl e
      | Inr securityGroupRule \<Rightarrow>
          (case ruleToID client securityGroupRule of
             Inl e \<Rightarrow> Inl e
           | Inr key \<Rightarrow> updateLoop client securityGroup flowDirection (set_Add key ids0) rest))"

definition updateAddRule ::
  "Client \<Rightarrow> SecurityGroup \<Rightarrow> string \<Rightarrow> RuleTemplate \<Rightarrow> error + RuleTemplate" where
  "updateAddRule client securityGroup flowDirection rule =
     (case securityGroupRulesToAdd client rule of
        Inl e \<Rightarrow> Inl e
      | Inr rulesToAdd \<Rightarrow>
          (case updateLoop client securityGroup flowDirection (ids rule) rulesToAdd of
             Inl e \<Rightarrow> Inl e
           | Inr ids1 \<Rightarrow> Inr (rule\<lparr>ids := ids1\<rparr>)))"

subsection \<open>The observed sets, as the spec describes them\<close>

text \<open>
  The spec (4.3) has the walk, for each identifier present in the backing rules,
  accumulate the CIDR, the group name and the port range of its rule into fresh observed
  sets and count it. \<open>backingRules\<close> lists the rules of the identifiers that have one;
  the three sets are read off that list, the port range of a rule in the text the code
  prints for it (\<open>portText\<close>), for TCP and UDP rules only. \<open>readable\<close> says that the walk
  can read a rule: it has a protocol, its peer group, if any, resolves to a group with a
  name, and an ICMP rule has a type and a code.
\<close>

definition backingRules :: "fetchRuleFunc \<Rightarrow> string list \<Rightarrow> SecurityGroupRule list" where
  "backingRules ruleFunc keys = List.map_filter ruleFunc keys"

definition isTCPorUDP :: "SecurityGroupRule \<Rightarrow> bool" where
  "isTCPorUDP r =
     (case Protocol r of
        None \<Rightarrow> False
      | Some p \<Rightarrow> ToUpper p = ''TCP'' \<or> ToUpper p = ''UDP'')"

definition groupNames :: "Client \<Rightarrow> SecurityGroupRule \<Rightarrow> string list" where
  "groupNames client r =
     (case SecurityGroupID r of
        None \<Rightarrow> []
      | Some g \<Rightarrow>
          (case GetSecurityGroup client g of
             Inl e \<Rightarrow> []
           | Inr sg \<Rightarrow> (case sgName sg of None \<Rightarrow> [] | Some n \<Rightarrow> [n])))"

definition observedCIDRs :: "SecurityGroupRule list \<Rightarrow> string set" where
  "observedCIDRs rs = set (List.map_filter Network rs)"

definition observedGroups :: "Client \<Rightarrow> SecurityGroupRule list \<Rightarrow> string set" where
  "observedGroups client rs = set (concat (map (groupNames client) rs))"

definition observedPorts :: "SecurityGroupRule list \<Rightarrow> string set" where
  "observedPorts rs = set (map portText (filter isTCPorUDP rs))"

definition readable :: "Client \<Rightarrow> SecurityGroupRule \<Rightarrow> bool" where
  "readable client r =
     (case Protocol r of
        None \<Rightarrow> False
      | Some p \<Rightarrow>
          (case SecurityGroupID r of
             None \<Rightarrow> True
           | Some g \<Rightarrow>
               (case GetSecurityGroup client g of
                  Inl e \<Rightarrow> False
                | Inr sg \<Rightarrow> sgName sg \<noteq> None))
          \<and> (HasPrefix (ToUpper p) ''ICMP'' \<longrightarrow> ICMPCode r \<noteq> None \<and> ICMPType r \<noteq> None))"

subsection \<open>What a key records\<close>



subsection \<open>Concrete inputs\<close>

text \<open>
  A client that knows one peer group, \<^verbatim>\<open>g1\<close>, named \<^verbatim>\<open>Web\<close> and found under \<^verbatim>\<open>web\<close>, that
  parses every CIDR to itself, and whose backing service gives a created rule an ID made
  from the network of the rule.
\<close>

definition exampleClient :: Client where
  "exampleClient = \<lparr>
     GetSecurityGroup =
       (\<lambda>g. if g = ''g1'' then Inr \<lparr>sgID = Some ''g1'', sgName = Some ''Web''\<rparr>
            else Inl (APIError ''not found'')),
     FindSecurityGroup =
       (\<lambda>x. if x = ''web'' then Inr \<lparr>sgID = Some ''g1'', sgName = Some ''Web''\<rparr>
            else Inl (APIError ''not found'')),
     CreateSecurityGroupRule =
       (\<lambda>sg r. Inr (r\<lparr>ID := Some (''id'' @ (case Network r of Some n \<Rightarrow> n | None \<Rightarrow> []))\<rparr>)),
     ParseCIDR = (\<lambda>c. Inr c)\<rparr>"

definition icmpRule :: SecurityGroupRule where
  "icmpRule = emptyRule\<lparr>ID := Some ''abc'', Protocol := Some ''ICMPv6'', ICMPType := Some 3,
     ICMPCode := Some 0\<rparr>"

definition tcpGroupRule :: SecurityGroupRule where
  "tcpGroupRule = emptyRule\<lparr>ID := Some ''abc'', Protocol := Some ''tcp'',
     SecurityGroupID := Some ''g1'', StartPort := Some 80, EndPort := Some 80\<rparr>"

definition greRule :: SecurityGroupRule where
  "greRule = emptyRule\<lparr>ID := Some ''abc'', Protocol := Some ''gre'',
     Network := Some ''10.0.0.0/8''\<rparr>"

definition tcpGroupRule2 :: SecurityGroupRule where
  "tcpGroupRule2 = tcpGroupRule\<lparr>Description := Some ''web tier'',
     FlowDirection := Some ''ingress''\<rparr>"

definition exampleClient2 :: Client where
  "exampleClient2 = exampleClient\<lparr>
     GetSecurityGroup := (\<lambda>g. if g = ''g1'' then Inr \<lparr>sgID = None, sgName = Some ''Web''\<rparr>
                            else Inl (APIError ''gone''))\<rparr>"

definition removalTemplate :: RuleTemplate where
  "removalTemplate = \<lparr>cidr_list = [''10.0.0.0/8''], description = [], icmp_code = 0,
     icmp_type = 0, ports = [''80''], protocol = ''TCP'', user_security_group_list = [],
     ids = [''abc_tcp_10.0.0.0/8_80-80'']\<rparr>"

definition malformedTemplate :: RuleTemplate where
  "malformedTemplate = removalTemplate\<lparr>ids := [''abc'', []]\<rparr>"

definition tcpTemplate :: RuleTemplate where
  "tcpTemplate = \<lparr>cidr_list = [''10.0.0.0/8'', ''172.16.0.0/12''], description = [], icmp_code = 0, icmp_type = 0,
     ports = [''80'', ''443''], protocol = ''TCP'', user_security_group_list = [''web''],
     ids = []\<rparr>"

definition tcpNoPorts :: RuleTemplate where
  "tcpNoPorts = tcpTemplate\<lparr>cidr_list := [''10.0.0.0/8''], ports := [], user_security_group_list := []\<rparr>"

definition icmpTemplate :: RuleTemplate where
  "icmpTemplate = tcpTemplate\<lparr>protocol := ''ICMP'', icmp_type := 8,
     user_security_group_list := []\<rparr>"

definition icmpWithPorts :: RuleTemplate where
  "icmpWithPorts = icmpTemplate\<lparr>ports := [''80'', ''443'']\<rparr>"

definition icmpRuleA :: SecurityGroupRule where
  "icmpRuleA = emptyRule\<lparr>Protocol := Some ''icmp'', ICMPCode := Some 0, ICMPType := Some 8,
     Network := Some ''10.0.0.0/8''\<rparr>"

definition icmpRuleB :: SecurityGroupRule where
  "icmpRuleB = icmpRuleA\<lparr>Network := Some ''172.16.0.0/12''\<rparr>"

definition groupTemplate :: RuleTemplate where
  "groupTemplate = tcpTemplate\<lparr>cidr_list := [], ports := [''80'']\<rparr>"

definition groupRule :: SecurityGroupRule where
  "groupRule = emptyRule\<lparr>Protocol := Some ''tcp'', StartPort := Some 80, EndPort := Some 80,
     SecurityGroupID := Some ''g1''\<rparr>"

definition failingClient :: Client where
  "failingClient = exampleClient\<lparr>GetSecurityGroup := (\<lambda>g. Inl (APIError ''timeout''))\<rparr>"

definition parentGroup :: SecurityGroup where
  "parentGroup = \<lparr>sgID = Some ''g0'', sgName = Some ''default''\<rparr>"

definition tcpRule :: "string \<Rightarrow> string \<Rightarrow> nat \<Rightarrow> SecurityGroupRule" where
  "tcpRule i network port = emptyRule\<lparr>ID := Some i, Protocol := Some ''tcp'',
     Network := Some network, StartPort := Some port, EndPort := Some port,
     FlowDirection := Some ''ingress''\<rparr>"

text \<open>Three backing rules, A:80, A:443 and B:80, under the keys \<^verbatim>\<open>ruleToID\<close> gives them.\<close>

definition driftRules :: fetchRuleFunc where
  "driftRules = map_of [
     (''r1_tcp_10.0.0.0/8_80-80'', tcpRule ''r1'' ''10.0.0.0/8'' 80),
     (''r2_tcp_10.0.0.0/8_443-443'', tcpRule ''r2'' ''10.0.0.0/8'' 443),
     (''r3_tcp_172.16.0.0/12_80-80'', tcpRule ''r3'' ''172.16.0.0/12'' 80)]"

definition driftTemplate :: RuleTemplate where
  "driftTemplate = \<lparr>cidr_list = [''10.0.0.0/8'', ''172.16.0.0/12''], description = [],
     icmp_code = 0, icmp_type = 0, ports = [''80'', ''443''], protocol = ''TCP'',
     user_security_group_list = [],
     ids = [''r1_tcp_10.0.0.0/8_80-80'', ''r2_tcp_10.0.0.0/8_443-443'',
            ''r3_tcp_172.16.0.0/12_80-80'', ''r4_tcp_172.16.0.0/12_443-443'']\<rparr>"

definition driftOnce :: RuleTemplate where
  "driftOnce = driftTemplate\<lparr>ports := [],
     ids := [''r1_tcp_10.0.0.0/8_80-80'', ''r2_tcp_10.0.0.0/8_443-443'',
             ''r3_tcp_172.16.0.0/12_80-80'']\<rparr>"

definition driftTwice :: RuleTemplate where
  "driftTwice = driftOnce\<lparr>ports := [''80'', ''443'']\<rparr>"

definition noRules :: fetchRuleFunc where
  "noRules = (\<lambda>key. None)"

definition driftWalk :: Walk where
  "driftWalk = \<lparr>w_rule = driftTemplate, w_actualLen = 3,
     w_cidrList = [''10.0.0.0/8'', ''172.16.0.0/12''], w_userSecurityGroupList = [],
     w_ports = [''80'', ''443''],
     w_ids = [''r1_tcp_10.0.0.0/8_80-80'', ''r2_tcp_10.0.0.0/8_443-443'',
              ''r3_tcp_172.16.0.0/12_80-80'']\<rparr>"

definition fullRules :: fetchRuleFunc where
  "fullRules = driftRules(''r4_tcp_172.16.0.0/12_443-443'' \<mapsto> tcpRule ''r4'' ''172.16.0.0/12'' 443)"









subsection \<open>Notions used in the proofs about \<^verbatim>\<open>readRules\<close>\<close>

text \<open>
  \<open>observed\<close> collects the counter and the three sets a walk builds. \<open>coupled a0 b0 a b\<close>
  relates the rule blocks of two walks that started from \<open>a0\<close> and \<open>b0\<close>: each of the four
  attributes a walk may overwrite either agrees already, or is still the initial one on
  both sides.
\<close>

definition observed :: "Walk \<Rightarrow> nat \<times> string list \<times> string list \<times> string list" where
  "observed w = (w_actualLen w, w_cidrList w, w_userSecurityGroupList w, w_ports w)"

definition coupled :: "RuleTemplate \<Rightarrow> RuleTemplate \<Rightarrow> RuleTemplate \<Rightarrow> RuleTemplate \<Rightarrow> bool" where
  "coupled a0 b0 a b \<longleftrightarrow>
     (protocol a = protocol b \<or> protocol a = protocol a0 \<and> protocol b = protocol b0) \<and>
     (description a = description b
        \<or> description a = description a0 \<and> description b = description b0) \<and>
     (icmp_code a = icmp_code b \<or> icmp_code a = icmp_code a0 \<and> icmp_code b = icmp_code b0) \<and>
     (icmp_type a = icmp_type b \<or> icmp_type a = icmp_type a0 \<and> icmp_type b = icmp_type b0)"

section \<open>Verified properties\<close>

lemmas eval_defs = ruleToID_def emptyRule_def ToLower_def lowerChar_def HasPrefix_def fmt_d_def
  decimal.simps exampleClient_def

subsection \<open>Identification\<close>

text \<open>
  C2 (corrected). For a rule with backing ID \<open>i\<close> and protocol \<open>p\<close>, \<^verbatim>\<open>ruleToID\<close> returns
  \<^item> \<open>i_lower(p)_type:code\<close> when the lower-cased protocol starts with \<^verbatim>\<open>icmp\<close> and the
    ICMP type and code are set;
  \<^item> \<open>i_p_name_start-end\<close> for TCP and UDP when both ports are set;
  \<^item> \<open>i_p_name\<close> for any other protocol;
  where \<open>name\<close> is the text of the network when there is one, and otherwise the name that
  \<^verbatim>\<open>GetSecurityGroup\<close> returns for the peer group, exactly as returned: \<^verbatim>\<open>ruleToID\<close> does
  not change its case.
\<close>

theorem ruleToID_key_format:
  assumes "ID r = Some i" and "Protocol r = Some p"
  shows "(HasPrefix (ToLower p) ''icmp'' \<longrightarrow> ICMPType r = Some t \<longrightarrow> ICMPCode r = Some c \<longrightarrow>
            ruleToID client r = Inr (i @ ''_'' @ ToLower p @ ''_'' @ fmt_d t @ '':'' @ fmt_d c))
       \<and> (\<not> HasPrefix (ToLower p) ''icmp'' \<longrightarrow>
            (Network r = Some n \<or>
             (Network r = None \<and>
              (\<exists>g sg. SecurityGroupID r = Some g \<and> GetSecurityGroup client g = Inr sg
                       \<and> sgName sg = Some n))) \<longrightarrow>
            (if ToLower p = ''tcp'' \<or> ToLower p = ''udp''
             then StartPort r = Some s \<longrightarrow> EndPort r = Some e \<longrightarrow>
                    ruleToID client r
                      = Inr (i @ ''_'' @ p @ ''_'' @ n @ ''_'' @ decimal s @ ''-'' @ decimal e)
             else ruleToID client r = Inr (i @ ''_'' @ p @ ''_'' @ n)))"
  using assms by (auto simp: ruleToID_def Let_def)

theorem ruleToID_key_format_witness:
  "ruleToID exampleClient icmpRule = Inr ''abc_icmpv6_3:0''
   \<and> ruleToID exampleClient tcpGroupRule = Inr ''abc_tcp_Web_80-80''
   \<and> ruleToID exampleClient greRule = Inr ''abc_gre_10.0.0.0/8''"
  using ruleToID_key_format [of icmpRule "''abc''" "''ICMPv6''" 3 0 exampleClient]
    ruleToID_key_format [of tcpGroupRule "''abc''" "''tcp''" _ _ exampleClient "''Web''" 80 80]
    ruleToID_key_format [of greRule "''abc''" "''gre''" _ _ exampleClient "''10.0.0.0/8''"]
  by (simp add: icmpRule_def tcpGroupRule_def greRule_def emptyRule_def ToLower_def lowerChar_def HasPrefix_def fmt_d_def
  decimal.simps exampleClient_def)

text \<open>
  The claim as written asks for the lower-cased name of the peer group. For a group that
  the resolver names \<^verbatim>\<open>Web\<close> the key keeps the capital letter.
\<close>

theorem ruleToID_lowercase_counterexample:
  "ruleToID exampleClient tcpGroupRule = Inr ''abc_tcp_Web_80-80''
   \<and> GetSecurityGroup exampleClient ''g1'' = Inr \<lparr>sgID = Some ''g1'', sgName = Some ''Web''\<rparr>
   \<and> ''abc_tcp_Web_80-80'' \<noteq> ''abc'' @ ''_'' @ ''tcp'' @ ''_'' @ ToLower ''Web'' @ ''_'' @ decimal 80 @ ''-'' @ decimal 80"
  by (simp add: tcpGroupRule_def eval_defs)

text \<open>
  C8 (confirmed). The key is a function of the backing ID, the protocol, the network, the
  peer group, the ports and the ICMP type and code alone: two rules that agree on these
  fields, read through two resolvers that answer alike (the same name or the same error)
  for the referenced group, get the same result, whatever else differs in the rules or in
  the clients. \<^verbatim>\<open>ruleToID\<close> takes no set or map, so no iteration order enters.
\<close>

theorem ruleToID_deterministic:
  assumes "ID r1 = ID r2" and "Protocol r1 = Protocol r2" and "Network r1 = Network r2"
    and "SecurityGroupID r1 = SecurityGroupID r2"
    and "StartPort r1 = StartPort r2" and "EndPort r1 = EndPort r2"
    and "ICMPType r1 = ICMPType r2" and "ICMPCode r1 = ICMPCode r2"
    and "\<forall>g. SecurityGroupID r1 = Some g \<longrightarrow>
           map_sum id sgName (GetSecurityGroup c1 g) = map_sum id sgName (GetSecurityGroup c2 g)"
  shows "ruleToID c1 r1 = ruleToID c2 r2"
proof (cases "SecurityGroupID r1")
  case None
  with assms(1-8) show ?thesis
    by (auto simp: ruleToID_def Let_def split: option.splits)
next
  case (Some g)
  with assms(9)
  have same: "map_sum id sgName (GetSecurityGroup c1 g) = map_sum id sgName (GetSecurityGroup c2 g)"
    by simp
  show ?thesis
  proof (cases "GetSecurityGroup c1 g")
    case (Inl e)
    with same have "GetSecurityGroup c2 g = Inl e"
      by (cases "GetSecurityGroup c2 g") auto
    with Inl Some assms(1-8) show ?thesis
      by (auto simp: ruleToID_def Let_def split: option.splits)
  next
    case (Inr sg1)
    with same obtain sg2 where "GetSecurityGroup c2 g = Inr sg2" and "sgName sg2 = sgName sg1"
      by (cases "GetSecurityGroup c2 g") auto
    with Inr Some assms(1-8) show ?thesis
      by (auto simp: ruleToID_def Let_def split: option.splits)
  qed
qed

theorem ruleToID_deterministic_witness:
  "tcpGroupRule \<noteq> tcpGroupRule2
   \<and> GetSecurityGroup exampleClient ''g1'' \<noteq> GetSecurityGroup exampleClient2 ''g1''
   \<and> ruleToID exampleClient tcpGroupRule = ruleToID exampleClient2 tcpGroupRule2
   \<and> ruleToID exampleClient2 tcpGroupRule2 = Inr ''abc_tcp_Web_80-80''"
  using ruleToID_deterministic [of tcpGroupRule tcpGroupRule2 exampleClient exampleClient2]
  by (simp add: tcpGroupRule2_def tcpGroupRule_def exampleClient2_def eval_defs)

subsection \<open>Removal\<close>

lemma takeWhile_no_sep: "sep \<notin> set s \<Longrightarrow> takeWhile (\<lambda>c. c \<noteq> sep) s = s"
  by (induction s) auto

lemma removeStep_eq:
  "removeStep rules identifier =
     Inr (rules(identifier \<mapsto> emptyRule\<lparr>ID := Some (takeWhile (\<lambda>c. c \<noteq> CHR ''_'') identifier)\<rparr>))"
  by (simp add: removeStep_def SplitN2_def takeWhile_no_sep)

lemma foldE_removeStep:
  "foldE removeStep rules xs =
     Inr (\<lambda>k. if k \<in> set xs
              then Some (emptyRule\<lparr>ID := Some (takeWhile (\<lambda>c. c \<noteq> CHR ''_'') k)\<rparr>)
              else rules k)"
proof (induction xs arbitrary: rules)
  case Nil
  show ?case by simp
next
  case (Cons x xs)
  have "foldE removeStep rules (x # xs)
        = foldE removeStep
            (rules(x \<mapsto> emptyRule\<lparr>ID := Some (takeWhile (\<lambda>c. c \<noteq> CHR ''_'') x)\<rparr>)) xs"
    by (simp only: foldE.simps removeStep_eq [of rules x] sum.case)
  also have "\<dots> = Inr (\<lambda>k. if k \<in> set (x # xs)
              then Some (emptyRule\<lparr>ID := Some (takeWhile (\<lambda>c. c \<noteq> CHR ''_'') k)\<rparr>)
              else rules k)"
    unfolding Cons.IH by (auto simp: fun_eq_iff)
  finally show ?case .
qed

lemma securityGroupRulesToRemove_eq:
  "securityGroupRulesToRemove rule =
     Inr (\<lambda>k. if k \<in> set (ids rule)
              then Some (emptyRule\<lparr>ID := Some (takeWhile (\<lambda>c. c \<noteq> CHR ''_'') k)\<rparr>)
              else None)"
  by (simp add: securityGroupRulesToRemove_def foldE_removeStep)

text \<open>
  C7 (confirmed). \<^verbatim>\<open>securityGroupRulesToRemove\<close> returns a map with one entry per identifier
  of the rule block, and the entry of an identifier \<open>backingID_rest\<close>, where \<open>backingID\<close> has
  no underscore, is the zero rule with only its backing ID set to \<open>backingID\<close>. The function
  takes the rule block alone, no client: it makes no external call. For the identifier
  \<^verbatim>\<open>abc_tcp_10.0.0.0/8_80-80\<close> the entry carries the backing ID \<^verbatim>\<open>abc\<close> only.
\<close>

theorem securityGroupRulesToRemove_backing_id:
  "\<exists>rules. securityGroupRulesToRemove rule = Inr rules \<and> dom rules = set (ids rule)
     \<and> (\<forall>backingID rest. backingID @ ''_'' @ rest \<in> set (ids rule) \<and> CHR ''_'' \<notin> set backingID
          \<longrightarrow> rules (backingID @ ''_'' @ rest) = Some (emptyRule\<lparr>ID := Some backingID\<rparr>))"
  by (auto simp: securityGroupRulesToRemove_eq dom_def takeWhile_append)

theorem securityGroupRulesToRemove_backing_id_witness:
  "\<exists>rules. securityGroupRulesToRemove removalTemplate = Inr rules
     \<and> dom rules = {''abc_tcp_10.0.0.0/8_80-80''}
     \<and> rules ''abc_tcp_10.0.0.0/8_80-80'' = Some (emptyRule\<lparr>ID := Some ''abc''\<rparr>)"
proof -
  obtain rules where r: "securityGroupRulesToRemove removalTemplate = Inr rules"
    and d: "dom rules = set (ids removalTemplate)"
    and b: "\<forall>backingID rest. backingID @ ''_'' @ rest \<in> set (ids removalTemplate)
              \<and> CHR ''_'' \<notin> set backingID
              \<longrightarrow> rules (backingID @ ''_'' @ rest) = Some (emptyRule\<lparr>ID := Some backingID\<rparr>)"
    using securityGroupRulesToRemove_backing_id [of removalTemplate] by blast
  from b [rule_format, of "''abc''" "''tcp_10.0.0.0/8_80-80''"]
  have "rules ''abc_tcp_10.0.0.0/8_80-80'' = Some (emptyRule\<lparr>ID := Some ''abc''\<rparr>)"
    by (simp add: removalTemplate_def)
  with r d show ?thesis by (simp add: removalTemplate_def)
qed

text \<open>
  C10 (confirmed). \<^verbatim>\<open>securityGroupRulesToRemove\<close> never fails: for every set of identifiers
  it returns a map whose keys are exactly the identifiers, one entry each, and an
  identifier without underscore is the backing ID of its own entry.
\<close>

theorem securityGroupRulesToRemove_total:
  "\<exists>rules. securityGroupRulesToRemove rule = Inr rules \<and> dom rules = set (ids rule)
     \<and> (distinct (ids rule) \<longrightarrow> card (dom rules) = length (ids rule))
     \<and> (\<forall>identifier \<in> set (ids rule). CHR ''_'' \<notin> set identifier
          \<longrightarrow> rules identifier = Some (emptyRule\<lparr>ID := Some identifier\<rparr>))"
proof -
  have "takeWhile (\<lambda>c. c \<noteq> CHR ''_'') k = k" if "CHR ''_'' \<notin> set k" for k
    using that by (rule takeWhile_no_sep)
  then show ?thesis
    by (auto simp: securityGroupRulesToRemove_eq dom_def distinct_card)
qed

theorem securityGroupRulesToRemove_total_witness:
  "\<exists>rules. securityGroupRulesToRemove malformedTemplate = Inr rules
     \<and> dom rules = {''abc'', []} \<and> card (dom rules) = 2
     \<and> rules ''abc'' = Some (emptyRule\<lparr>ID := Some ''abc''\<rparr>)
     \<and> rules [] = Some (emptyRule\<lparr>ID := Some []\<rparr>)"
proof -
  have ids: "ids malformedTemplate = [''abc'', []]"
    by (simp add: malformedTemplate_def)
  obtain rules where r: "securityGroupRulesToRemove malformedTemplate = Inr rules"
    and d: "dom rules = set (ids malformedTemplate)"
    and c: "distinct (ids malformedTemplate) \<longrightarrow> card (dom rules) = length (ids malformedTemplate)"
    and b: "\<forall>identifier \<in> set (ids malformedTemplate). CHR ''_'' \<notin> set identifier
              \<longrightarrow> rules identifier = Some (emptyRule\<lparr>ID := Some identifier\<rparr>)"
    using securityGroupRulesToRemove_total [of malformedTemplate] by blast
  from c have "card (dom rules) = 2" by (simp add: ids)
  moreover from b have "rules ''abc'' = Some (emptyRule\<lparr>ID := Some ''abc''\<rparr>)"
    by (simp add: ids)
  moreover from b have "rules [] = Some (emptyRule\<lparr>ID := Some []\<rparr>)"
    by (simp add: ids)
  moreover from d have "dom rules = {''abc'', []}" by (simp add: ids)
  ultimately show ?thesis using r by blast
qed

subsection \<open>Expansion\<close>

lemma mapE_all2: "mapE f xs = Inr ys \<Longrightarrow> list_all2 (\<lambda>x y. f x = Inr y) xs ys"
  by (induction xs arbitrary: ys) (auto split: sum.splits)

lemma mapE_length: "mapE f xs = Inr ys \<Longrightarrow> length ys = length xs"
  by (drule mapE_all2) (rule list_all2_lengthD [symmetric])

lemma mapE_total: "\<forall>x\<in>set xs. \<exists>y. f x = Inr y \<Longrightarrow> \<exists>ys. mapE f xs = Inr ys"
  by (induction xs) auto

lemma mapE_nested_length:
  "mapE (\<lambda>r. mapE (g r) cs) bs = Inr yss \<Longrightarrow> length (concat yss) = length bs * length cs"
proof (induction bs arbitrary: yss)
  case Nil
  then show ?case by simp
next
  case (Cons b bs)
  then show ?case by (auto split: sum.splits dest: mapE_length)
qed

lemma length_baseRules:
  "length (baseRules rule) =
     (if ToLower (protocol rule) = ''tcp'' \<or> ToLower (protocol rule) = ''udp''
      then length (ports rule) else 1)"
  by (auto simp: baseRules_def Let_def preparePorts_def HasPrefix_def)

text \<open>
  C3 (corrected). When every CIDR of the rule block parses and every peer group is found,
  \<^verbatim>\<open>securityGroupRulesToAdd\<close> returns \<open>(c + g) * p\<close> rules for TCP and UDP, where \<open>p\<close> is the
  number of port entries (none when \<open>p = 0\<close>), and \<open>(c + g) * 1\<close> rules for every other
  protocol, whatever ports the block declares.
\<close>

theorem securityGroupRulesToAdd_count:
  assumes "\<forall>c\<in>set (cidr_list rule). \<exists>network. ParseCIDR client c = Inr network"
    and "\<forall>x\<in>set (user_security_group_list rule). \<exists>sg. FindSecurityGroup client x = Inr sg"
  shows "\<exists>rules. securityGroupRulesToAdd client rule = Inr rules
           \<and> length rules =
               (length (cidr_list rule) + length (user_security_group_list rule))
               * (if ToLower (protocol rule) = ''tcp'' \<or> ToLower (protocol rule) = ''udp''
                  then length (ports rule) else 1)"
proof -
  have "\<exists>ys. mapE (expandCIDR client r) (cidr_list rule) = Inr ys" for r
  proof (rule mapE_total)
    from assms(1) show "\<forall>c\<in>set (cidr_list rule). \<exists>y. expandCIDR client r c = Inr y"
      by (auto simp: expandCIDR_def)
  qed
  then have "\<exists>byCIDR. mapE (\<lambda>r. mapE (expandCIDR client r) (cidr_list rule)) (baseRules rule)
               = Inr byCIDR"
    by (intro mapE_total) simp
  then obtain byCIDR
    where c: "mapE (\<lambda>r. mapE (expandCIDR client r) (cidr_list rule)) (baseRules rule) = Inr byCIDR"
    ..
  have "\<exists>ys. mapE (expandGroup client r) (user_security_group_list rule) = Inr ys" for r
  proof (rule mapE_total)
    from assms(2)
    show "\<forall>x\<in>set (user_security_group_list rule). \<exists>y. expandGroup client r x = Inr y"
      by (auto simp: expandGroup_def)
  qed
  then have "\<exists>byGroup. mapE (\<lambda>r. mapE (expandGroup client r) (user_security_group_list rule))
                (baseRules rule) = Inr byGroup"
    by (intro mapE_total) simp
  then obtain byGroup
    where g: "mapE (\<lambda>r. mapE (expandGroup client r) (user_security_group_list rule))
                (baseRules rule) = Inr byGroup"
    ..
  have "securityGroupRulesToAdd client rule = Inr (concat byCIDR @ concat byGroup)"
    by (simp add: securityGroupRulesToAdd_def c g)
  moreover have "length (concat byCIDR @ concat byGroup)
      = (length (cidr_list rule) + length (user_security_group_list rule)) * length (baseRules rule)"
    using mapE_nested_length [OF c] mapE_nested_length [OF g] by (simp add: algebra_simps)
  ultimately show ?thesis by (simp only: length_baseRules) blast
qed

theorem securityGroupRulesToAdd_count_witness:
  "\<exists>rules. securityGroupRulesToAdd exampleClient tcpTemplate = Inr rules \<and> length rules = 6"
proof -
  have c: "\<forall>c\<in>set (cidr_list tcpTemplate). \<exists>network. ParseCIDR exampleClient c = Inr network"
    by (simp add: tcpTemplate_def exampleClient_def)
  have g: "\<forall>x\<in>set (user_security_group_list tcpTemplate).
             \<exists>sg. FindSecurityGroup exampleClient x = Inr sg"
    by (simp add: tcpTemplate_def exampleClient_def)
  have n: "(length (cidr_list tcpTemplate) + length (user_security_group_list tcpTemplate))
             * (if ToLower (protocol tcpTemplate) = ''tcp'' \<or> ToLower (protocol tcpTemplate) = ''udp''
                then length (ports tcpTemplate) else 1) = 6"
    by (simp add: tcpTemplate_def ToLower_def lowerChar_def)
  from securityGroupRulesToAdd_count [OF c g] show ?thesis unfolding n .
qed

lemma lower_TCP: "ToLower ''TCP'' = ''tcp''" and lower_ICMP: "ToLower ''ICMP'' = ''icmp''"
  by (simp_all add: ToLower_def lowerChar_def)

lemma baseRules_tcpNoPorts: "baseRules tcpNoPorts = []"
  by (simp add: baseRules_def tcpNoPorts_def tcpTemplate_def lower_TCP HasPrefix_def preparePorts_def)

lemma expansion_tcpNoPorts: "securityGroupRulesToAdd exampleClient tcpNoPorts = Inr []"
  by (simp add: securityGroupRulesToAdd_def baseRules_tcpNoPorts)

lemma baseRules_icmpWithPorts: "baseRules icmpWithPorts
   = [emptyRule\<lparr>Protocol := Some ''icmp'', ICMPCode := Some 0, ICMPType := Some 8\<rparr>]"
  by (simp add: baseRules_def icmpWithPorts_def icmpTemplate_def tcpTemplate_def lower_ICMP HasPrefix_def
      nonEmptyStringPtr_def emptyRule_def)

lemma fields_icmpWithPorts: "cidr_list icmpWithPorts = [''10.0.0.0/8'', ''172.16.0.0/12'']" "user_security_group_list icmpWithPorts = []"
  "ports icmpWithPorts = [''80'', ''443'']"
  by (simp_all add: icmpWithPorts_def icmpTemplate_def tcpTemplate_def)

lemma expandCIDR_example: "expandCIDR exampleClient r c = Inr (r\<lparr>Network := Some c\<rparr>)"
  by (simp add: expandCIDR_def exampleClient_def)

lemma expansion_icmpWithPorts: "securityGroupRulesToAdd exampleClient icmpWithPorts = Inr [icmpRuleA, icmpRuleB]"
  by (simp add: securityGroupRulesToAdd_def baseRules_icmpWithPorts fields_icmpWithPorts expandCIDR_example icmpRuleA_def icmpRuleB_def)

lemma fields_tcpNoPorts: "cidr_list tcpNoPorts = [''10.0.0.0/8'']" "user_security_group_list tcpNoPorts = []"
  "ports tcpNoPorts = []"
  by (simp_all add: tcpNoPorts_def tcpTemplate_def)

text \<open>
  The count is not \<open>(c + g) * max 1 p\<close>: a TCP block with one CIDR and no port expands to
  no rule at all, and an ICMP block with two CIDRs and two declared ports expands to two
  rules, not four.
\<close>

theorem securityGroupRulesToAdd_count_counterexample:
  "securityGroupRulesToAdd exampleClient tcpNoPorts = Inr []
   \<and> (length (cidr_list tcpNoPorts) + length (user_security_group_list tcpNoPorts))
       * max 1 (length (ports tcpNoPorts)) = 1
   \<and> securityGroupRulesToAdd exampleClient icmpWithPorts = Inr [icmpRuleA, icmpRuleB]
   \<and> (length (cidr_list icmpWithPorts) + length (user_security_group_list icmpWithPorts))
       * max 1 (length (ports icmpWithPorts)) = 4"
  by (simp add: expansion_tcpNoPorts expansion_icmpWithPorts fields_tcpNoPorts fields_icmpWithPorts)





lemma icmp_keys:
  "ruleToID client (icmpRuleA\<lparr>FlowDirection := fd, ID := Some i\<rparr>) = Inr (i @ ''_icmp_8:0'')"
  "ruleToID client (icmpRuleB\<lparr>FlowDirection := fd, ID := Some i\<rparr>) = Inr (i @ ''_icmp_8:0'')"
  by (simp_all add: ruleToID_def icmpRuleA_def icmpRuleB_def emptyRule_def lower_ICMP [unfolded ToLower_def] ToLower_def lowerChar_def HasPrefix_def fmt_d_def decimal.simps)

subsection \<open>Error propagation in the create pass\<close>

lemma failing_client:
  "GetSecurityGroup failingClient g = Inl (APIError ''timeout'')"
  "FindSecurityGroup failingClient ''web'' = Inr \<lparr>sgID = Some ''g1'', sgName = Some ''Web''\<rparr>"
  "CreateSecurityGroupRule failingClient sg r
     = Inr (r\<lparr>ID := Some (''id'' @ (case Network r of Some n \<Rightarrow> n | None \<Rightarrow> []))\<rparr>)"
  by (simp_all add: failingClient_def exampleClient_def)

lemma prepare_80: "preparePorts [''80''] = [(80, 80)]"
  by (simp add: preparePorts_def preparePort_def ParseUint16_def digitVal_def Let_def)

lemma lower_web: "ToLower ''web'' = ''web''"
  by (simp add: ToLower_def lowerChar_def)

lemma group_fields:
  "cidr_list groupTemplate = []" "user_security_group_list groupTemplate = [''web'']"
  "ports groupTemplate = [''80'']" "protocol groupTemplate = ''TCP''"
  "description groupTemplate = []" "ids groupTemplate = []"
  by (simp_all add: groupTemplate_def tcpTemplate_def)

lemma group_lowered:
  "groupTemplate\<lparr>user_security_group_list :=
      foldl (\<lambda>s x. set_Add (ToLower x) s) [] (user_security_group_list groupTemplate)\<rparr>
   = groupTemplate"
  by (simp add: group_fields lower_web set_Add_def)

lemma group_base: "baseRules groupTemplate = [groupRule\<lparr>SecurityGroupID := None\<rparr>]"
  by (simp add: baseRules_def group_fields lower_TCP HasPrefix_def prepare_80
      nonEmptyStringPtr_def groupRule_def emptyRule_def)

lemma group_expansion: "securityGroupRulesToAdd failingClient groupTemplate = Inr [groupRule]"
  by (simp add: securityGroupRulesToAdd_def group_base group_fields expandGroup_def
      failing_client groupRule_def)

lemma group_created:
  "CreateSecurityGroupRule failingClient sg (groupRule\<lparr>FlowDirection := fd\<rparr>)
     = Inr (groupRule\<lparr>FlowDirection := fd, ID := Some ''id''\<rparr>)"
  by (simp add: failing_client groupRule_def emptyRule_def)

lemma group_key:
  "ruleToID failingClient (groupRule\<lparr>FlowDirection := fd, ID := Some ''id''\<rparr>)
     = Inl (Wrapped ''unable to retrieve Security Group: '' (APIError ''timeout''))"
  by (simp add: ruleToID_def groupRule_def emptyRule_def lower_TCP [unfolded ToLower_def]
      ToLower_def lowerChar_def HasPrefix_def failing_client)

text \<open>
  C5 (code bug). The peer group \<^verbatim>\<open>web\<close> is found when the block is expanded and the rule
  is created, but the lookup of \<^verbatim>\<open>ruleToID\<close> fails. The create pass drops the error and
  records the empty identifier in \<^verbatim>\<open>ids\<close>; the update pass, on the same input, returns the
  error.
\<close>

theorem createRule_drops_ruleToID_error:
  "securityGroupRulesToAdd failingClient groupTemplate = Inr [groupRule]
   \<and> CreateSecurityGroupRule failingClient parentGroup
        (groupRule\<lparr>FlowDirection := Some ''ingress''\<rparr>)
       = Inr (groupRule\<lparr>FlowDirection := Some ''ingress'', ID := Some ''id''\<rparr>)
   \<and> ruleToID failingClient (groupRule\<lparr>FlowDirection := Some ''ingress'', ID := Some ''id''\<rparr>)
       = Inl (Wrapped ''unable to retrieve Security Group: '' (APIError ''timeout''))
   \<and> createRule failingClient parentGroup ''ingress'' groupTemplate
       = Inr (groupTemplate\<lparr>ids := [[]]\<rparr>)
   \<and> updateAddRule failingClient parentGroup ''ingress'' groupTemplate
       = Inl (Wrapped ''unable to retrieve Security Group: '' (APIError ''timeout''))"
proof -
  have fd: "nonEmptyStringPtr ''ingress'' = Some ''ingress''"
    by (simp add: nonEmptyStringPtr_def)
  have "createRule failingClient parentGroup ''ingress'' groupTemplate
          = Inr (groupTemplate\<lparr>ids := [[]]\<rparr>)"
    unfolding createRule_def Let_def group_lowered
    by (simp add: group_expansion group_created group_key group_fields set_Add_def fd isPanic_def)
  moreover have "updateAddRule failingClient parentGroup ''ingress'' groupTemplate
          = Inl (Wrapped ''unable to retrieve Security Group: '' (APIError ''timeout''))"
    unfolding updateAddRule_def
    by (simp add: group_expansion group_created group_key group_fields fd)
  ultimately show ?thesis
    by (simp add: group_expansion group_created group_key)
qed

subsection \<open>Reconciliation\<close>

lemma step_absent:
  "ruleFunc key = None \<Longrightarrow>
     readRuleStep client ruleFunc w key = Inr (w\<lparr>w_ids := removeAll key (w_ids w)\<rparr>)"
  by (simp add: readRuleStep_def set_Remove_def)

lemma step_present_ids:
  "ruleFunc key = Some r \<Longrightarrow> readRuleStep client ruleFunc w key = Inr w' \<Longrightarrow>
     w_ids w' = w_ids w \<and> w_actualLen w' = Suc (w_actualLen w)"
  by (auto simp: readRuleStep_def Let_def split: option.splits sum.splits if_splits)

lemma step_present_ok:
  "ruleFunc key = Some r \<Longrightarrow> readRuleStep client ruleFunc w key = Inr w' \<Longrightarrow>
     \<exists>v'. readRuleStep client ruleFunc v key = Inr v'"
  by (auto simp: readRuleStep_def Let_def split: option.splits sum.splits if_splits)

lemma step_present_observed:
  "ruleFunc key = Some r \<Longrightarrow> readRuleStep client ruleFunc w key = Inr w' \<Longrightarrow>
   readRuleStep client ruleFunc v key = Inr v' \<Longrightarrow> observed v = observed w \<Longrightarrow>
     observed v' = observed w'"
  by (auto simp: readRuleStep_def Let_def observed_def split: option.splits sum.splits if_splits)

lemma step_present_rule:
  "ruleFunc key = Some r \<Longrightarrow> readRuleStep client ruleFunc w key = Inr w' \<Longrightarrow>
     protocol (w_rule w') = (if HasPrefix (ToUpper (the (Protocol r))) ''ICMP''
                             then ReplaceAll_V6 (ToUpper (the (Protocol r)))
                             else ToUpper (the (Protocol r)))
     \<and> description (w_rule w') = defaultString (Description r) []
     \<and> icmp_code (w_rule w') = (if HasPrefix (ToUpper (the (Protocol r))) ''ICMP''
                                then the (ICMPCode r) else icmp_code (w_rule w))
     \<and> icmp_type (w_rule w') = (if HasPrefix (ToUpper (the (Protocol r))) ''ICMP''
                                then the (ICMPType r) else icmp_type (w_rule w))"
  by (auto simp: readRuleStep_def Let_def split: option.splits sum.splits if_splits)

lemma step_present_sim:
  assumes present: "ruleFunc key = Some r"
    and step: "readRuleStep client ruleFunc w key = Inr w'"
    and obs: "observed v = observed w"
    and cpl: "coupled a0 b0 (w_rule w) (w_rule v)"
  shows "\<exists>v'. readRuleStep client ruleFunc v key = Inr v' \<and> observed v' = observed w'
           \<and> w_ids v' = w_ids v \<and> coupled a0 b0 (w_rule w') (w_rule v')"
proof -
  from step_present_ok [OF present step]
  obtain v' where v': "readRuleStep client ruleFunc v key = Inr v'" ..
  have "observed v' = observed w'"
    using present step v' obs by (rule step_present_observed)
  moreover have "w_ids v' = w_ids v"
    using step_present_ids [OF present v'] ..
  moreover have "coupled a0 b0 (w_rule w') (w_rule v')"
    using step_present_rule [OF present step] step_present_rule [OF present v'] cpl
    unfolding coupled_def by (cases "HasPrefix (ToUpper (the (Protocol r))) ''ICMP''") simp_all
  ultimately show ?thesis using v' by blast
qed

lemma walk_sim:
  assumes "foldE (readRuleStep client ruleFunc) w xs = Inr w'"
    and "observed v = observed w"
    and "coupled a0 b0 (w_rule w) (w_rule v)"
  shows "\<exists>v'. foldE (readRuleStep client ruleFunc) v (filter (\<lambda>k. ruleFunc k \<noteq> None) xs) = Inr v'
           \<and> observed v' = observed w' \<and> w_ids v' = w_ids v
           \<and> coupled a0 b0 (w_rule w') (w_rule v')"
  using assms
proof (induction xs arbitrary: w v)
  case Nil
  then show ?case by simp
next
  case (Cons x xs)
  show ?case
  proof (cases "ruleFunc x")
    case None
    let ?w1 = "w\<lparr>w_ids := removeAll x (w_ids w)\<rparr>"
    from Cons.prems(1) None
    have "foldE (readRuleStep client ruleFunc) ?w1 xs = Inr w'"
      by (simp add: step_absent)
    moreover from Cons.prems(2) have "observed v = observed ?w1"
      by (simp add: observed_def)
    moreover from Cons.prems(3) have "coupled a0 b0 (w_rule ?w1) (w_rule v)"
      by simp
    ultimately show ?thesis using None Cons.IH [of ?w1 v] by simp
  next
    case (Some r)
    from Cons.prems(1) obtain w1
      where w1: "readRuleStep client ruleFunc w x = Inr w1"
        and rest: "foldE (readRuleStep client ruleFunc) w1 xs = Inr w'"
      by (auto split: sum.splits)
    from step_present_sim [OF Some w1 Cons.prems(2,3)]
    obtain v1 where v1: "readRuleStep client ruleFunc v x = Inr v1"
      and o1: "observed v1 = observed w1" and i1: "w_ids v1 = w_ids v"
      and c1: "coupled a0 b0 (w_rule w1) (w_rule v1)"
      by blast
    from Cons.IH [OF rest o1 c1] i1 v1 Some show ?thesis by simp
  qed
qed

lemma walk_ids:
  "foldE (readRuleStep client ruleFunc) w xs = Inr w' \<Longrightarrow>
     w_ids w' = filter (\<lambda>k. \<not> (k \<in> set xs \<and> ruleFunc k = None)) (w_ids w)"
proof (induction xs arbitrary: w)
  case Nil
  then show ?case by simp
next
  case (Cons x xs)
  show ?case
  proof (cases "ruleFunc x")
    case None
    with Cons.prems
    have "foldE (readRuleStep client ruleFunc) (w\<lparr>w_ids := removeAll x (w_ids w)\<rparr>) xs = Inr w'"
      by (simp add: step_absent)
    from Cons.IH [OF this] None show ?thesis
      by (auto simp: removeAll_filter_not_eq intro: filter_cong)
  next
    case (Some r)
    from Cons.prems obtain w1
      where w1: "readRuleStep client ruleFunc w x = Inr w1"
        and rest: "foldE (readRuleStep client ruleFunc) w1 xs = Inr w'"
      by (auto split: sum.splits)
    from step_present_ids [OF Some w1] Cons.IH [OF rest] Some show ?thesis
      by (auto intro: filter_cong)
  qed
qed

lemma walk_actualLen:
  "foldE (readRuleStep client ruleFunc) w xs = Inr w' \<Longrightarrow>
     w_actualLen w' = w_actualLen w + length (filter (\<lambda>k. ruleFunc k \<noteq> None) xs)"
proof (induction xs arbitrary: w)
  case Nil
  then show ?case by simp
next
  case (Cons x xs)
  show ?case
  proof (cases "ruleFunc x")
    case None
    with Cons.prems
    have "foldE (readRuleStep client ruleFunc) (w\<lparr>w_ids := removeAll x (w_ids w)\<rparr>) xs = Inr w'"
      by (simp add: step_absent)
    from Cons.IH [OF this] None show ?thesis by simp
  next
    case (Some r)
    from Cons.prems obtain w1
      where w1: "readRuleStep client ruleFunc w x = Inr w1"
        and rest: "foldE (readRuleStep client ruleFunc) w1 xs = Inr w'"
      by (auto split: sum.splits)
    from step_present_ids [OF Some w1] Cons.IH [OF rest] Some show ?thesis by simp
  qed
qed

lemma removeAll_filter: "removeAll x xs = filter (\<lambda>k. k \<noteq> x) xs"
  by (induction xs) auto

lemma walk_all_absent:
  "\<forall>k\<in>set xs. ruleFunc k = None \<Longrightarrow>
     foldE (readRuleStep client ruleFunc) w xs
       = Inr (w\<lparr>w_ids := filter (\<lambda>k. k \<notin> set xs) (w_ids w)\<rparr>)"
proof (induction xs arbitrary: w)
  case Nil
  show ?case by simp
next
  case (Cons x xs)
  then show ?case
    by (simp add: step_absent removeAll_filter)
qed


lemma template_eqI:
  fixes a b :: RuleTemplate
  shows "protocol a = protocol b \<Longrightarrow> description a = description b \<Longrightarrow>
   icmp_code a = icmp_code b \<Longrightarrow> icmp_type a = icmp_type b \<Longrightarrow>
     a\<lparr>ids := i, ports := p, cidr_list := c, user_security_group_list := u\<rparr>
       = b\<lparr>ids := i, ports := p, cidr_list := c, user_security_group_list := u\<rparr>"
  by (cases a, cases b) simp

lemma coupled_same:
  "coupled a0 b0 a b \<Longrightarrow> protocol b0 = protocol a \<Longrightarrow> description b0 = description a \<Longrightarrow>
   icmp_code b0 = icmp_code a \<Longrightarrow> icmp_type b0 = icmp_type a \<Longrightarrow>
     protocol a = protocol b \<and> description a = description b
     \<and> icmp_code a = icmp_code b \<and> icmp_type a = icmp_type b"
  unfolding coupled_def by auto

lemma coupled_init: "coupled a0 b0 a0 b0"
  by (simp add: coupled_def)

lemma walk_rule_frame:
  "foldE (readRuleStep client ruleFunc) w xs = Inr w' \<Longrightarrow>
     cidr_list (w_rule w') = cidr_list (w_rule w) \<and> ports (w_rule w') = ports (w_rule w)
     \<and> user_security_group_list (w_rule w') = user_security_group_list (w_rule w)"
proof (induction xs arbitrary: w)
  case Nil
  then show ?case by simp
next
  case (Cons x xs)
  from Cons.prems obtain w1
    where w1: "readRuleStep client ruleFunc w x = Inr w1"
      and rest: "foldE (readRuleStep client ruleFunc) w1 xs = Inr w'"
    by (auto split: sum.splits)
  from w1 have "cidr_list (w_rule w1) = cidr_list (w_rule w) \<and> ports (w_rule w1) = ports (w_rule w)
     \<and> user_security_group_list (w_rule w1) = user_security_group_list (w_rule w)"
    by (auto simp: readRuleStep_def Let_def split: option.splits sum.splits if_splits)
  with Cons.IH [OF rest] show ?case by simp
qed

text \<open>The output of a pass, as a function of the final state of the walk.\<close>

lemma readRule_walk:
  "walk client ruleFunc rule = Inr w \<Longrightarrow>
     readRule client ruleFunc rule =
       Inr ((w_rule w)\<lparr>
         ids := w_ids w,
         ports := (if length (w_cidrList w) = length (cidr_list rule)
                      \<and> length (w_ports w) = length (ports rule)
                      \<and> length (w_userSecurityGroupList w) = length (user_security_group_list rule)
                      \<and> (length (cidr_list rule) + length (user_security_group_list rule))
                           * length (ports rule) \<noteq> w_actualLen w
                   then [] else w_ports w),
         cidr_list := w_cidrList w,
         user_security_group_list := w_userSecurityGroupList w\<rparr>)"
  by (simp add: readRule_def Let_def)

lemma readRule_InrD:
  "readRule client ruleFunc rule = Inr rule' \<Longrightarrow> \<exists>w. walk client ruleFunc rule = Inr w"
  by (cases "walk client ruleFunc rule") (simp_all add: readRule_def Let_def)

lemma set_set_Add: "set (set_Add x s) = insert x (set s)"
  by (auto simp: set_Add_def)

lemma distinct_set_Add: "distinct s \<Longrightarrow> distinct (set_Add x s)"
  by (simp add: set_Add_def)

lemma backingRules_Nil: "backingRules ruleFunc [] = []"
  by (simp add: backingRules_def)

lemma backingRules_Cons:
  "backingRules ruleFunc (k # ks) =
     (case ruleFunc k of None \<Rightarrow> backingRules ruleFunc ks
      | Some r \<Rightarrow> r # backingRules ruleFunc ks)"
  by (simp add: backingRules_def split: option.splits)

lemma observed_Nil:
  "observedCIDRs [] = {}" "observedGroups client [] = {}" "observedPorts [] = {}"
  by (simp_all add: observedCIDRs_def observedGroups_def observedPorts_def)

lemma observed_Cons:
  "observedCIDRs (r # rs) =
     (case Network r of None \<Rightarrow> observedCIDRs rs | Some n \<Rightarrow> insert n (observedCIDRs rs))"
  "observedGroups client (r # rs) = set (groupNames client r) \<union> observedGroups client rs"
  "observedPorts (r # rs) =
     (if isTCPorUDP r then insert (portText r) (observedPorts rs) else observedPorts rs)"
  by (simp_all add: observedCIDRs_def observedGroups_def observedPorts_def split: option.splits)

lemma not_ICMP_TCP:
  "p = ''TCP'' \<or> p = ''UDP'' \<Longrightarrow> \<not> HasPrefix p ''ICMP''"
  by (auto simp: HasPrefix_def)

lemma step_present_readable:
  assumes "ruleFunc key = Some r" and "readable client r"
  shows "\<exists>w'. readRuleStep client ruleFunc w key = Inr w'
           \<and> w_actualLen w' = Suc (w_actualLen w)
           \<and> w_cidrList w' =
               (case Network r of None \<Rightarrow> w_cidrList w | Some n \<Rightarrow> set_Add n (w_cidrList w))
           \<and> w_userSecurityGroupList w' =
               foldl (\<lambda>s n. set_Add n s) (w_userSecurityGroupList w) (groupNames client r)
           \<and> w_ports w' =
               (if isTCPorUDP r then set_Add (portText r) (w_ports w) else w_ports w)"
  using assms
  by (auto simp: readRuleStep_def readable_def isTCPorUDP_def groupNames_def Let_def not_ICMP_TCP
      split: option.splits sum.splits)


lemma set_foldl_set_Add: "set (foldl (\<lambda>s n. set_Add n s) s ns) = set s \<union> set ns"
  by (induction ns arbitrary: s) (auto simp: set_set_Add)

lemma distinct_foldl_set_Add: "distinct s \<Longrightarrow> distinct (foldl (\<lambda>s n. set_Add n s) s ns)"
  by (induction ns arbitrary: s) (auto simp: distinct_set_Add)

text \<open>What a walk that reads well-formed backing rules ends with.\<close>

lemma walk_observed:
  assumes "\<forall>r\<in>set (backingRules ruleFunc keys). readable client r"
  shows "\<exists>w'. foldE (readRuleStep client ruleFunc) w keys = Inr w'
           \<and> w_actualLen w' = w_actualLen w + length (backingRules ruleFunc keys)
           \<and> set (w_cidrList w') = set (w_cidrList w) \<union> observedCIDRs (backingRules ruleFunc keys)
           \<and> set (w_userSecurityGroupList w')
               = set (w_userSecurityGroupList w)
                 \<union> observedGroups client (backingRules ruleFunc keys)
           \<and> set (w_ports w') = set (w_ports w) \<union> observedPorts (backingRules ruleFunc keys)
           \<and> (distinct (w_cidrList w) \<longrightarrow> distinct (w_cidrList w'))
           \<and> (distinct (w_userSecurityGroupList w) \<longrightarrow> distinct (w_userSecurityGroupList w'))
           \<and> (distinct (w_ports w) \<longrightarrow> distinct (w_ports w'))"
  using assms
proof (induction keys arbitrary: w)
  case Nil
  show ?case by (simp add: backingRules_Nil observed_Nil)
next
  case (Cons k ks)
  show ?case
  proof (cases "ruleFunc k")
    case None
    let ?w1 = "w\<lparr>w_ids := removeAll k (w_ids w)\<rparr>"
    from Cons.prems None have "\<forall>r\<in>set (backingRules ruleFunc ks). readable client r"
      by (simp add: backingRules_Cons)
    from Cons.IH [OF this, of ?w1] None show ?thesis
      by (simp add: step_absent backingRules_Cons)
  next
    case (Some r)
    from Cons.prems Some have r: "readable client r"
      and rest: "\<forall>r\<in>set (backingRules ruleFunc ks). readable client r"
      by (simp_all add: backingRules_Cons)
    from step_present_readable [where ruleFunc = ruleFunc and key = k and w = w, OF Some r]
    obtain w1 where w1: "readRuleStep client ruleFunc w k = Inr w1"
      and a1: "w_actualLen w1 = Suc (w_actualLen w)"
      and c1: "w_cidrList w1 =
                 (case Network r of None \<Rightarrow> w_cidrList w | Some n \<Rightarrow> set_Add n (w_cidrList w))"
      and g1: "w_userSecurityGroupList w1 =
                 foldl (\<lambda>s n. set_Add n s) (w_userSecurityGroupList w) (groupNames client r)"
      and p1: "w_ports w1 =
                 (if isTCPorUDP r then set_Add (portText r) (w_ports w) else w_ports w)"
      by blast
    from Cons.IH [OF rest, of w1]
    obtain w' where w': "foldE (readRuleStep client ruleFunc) w1 ks = Inr w'"
      and a: "w_actualLen w' = w_actualLen w1 + length (backingRules ruleFunc ks)"
      and c: "set (w_cidrList w') = set (w_cidrList w1) \<union> observedCIDRs (backingRules ruleFunc ks)"
      and g: "set (w_userSecurityGroupList w')
               = set (w_userSecurityGroupList w1) \<union> observedGroups client (backingRules ruleFunc ks)"
      and p: "set (w_ports w') = set (w_ports w1) \<union> observedPorts (backingRules ruleFunc ks)"
      and dc: "distinct (w_cidrList w1) \<longrightarrow> distinct (w_cidrList w')"
      and dg: "distinct (w_userSecurityGroupList w1) \<longrightarrow> distinct (w_userSecurityGroupList w')"
      and dp: "distinct (w_ports w1) \<longrightarrow> distinct (w_ports w')"
      by blast
    have b: "backingRules ruleFunc (k # ks) = r # backingRules ruleFunc ks"
      using Some by (simp add: backingRules_Cons)
    have "foldE (readRuleStep client ruleFunc) w (k # ks) = Inr w'"
      using w1 w' by simp
    moreover have "w_actualLen w' = w_actualLen w + length (backingRules ruleFunc (k # ks))"
      using a a1 by (simp add: b)
    moreover have "set (w_cidrList w')
        = set (w_cidrList w) \<union> observedCIDRs (backingRules ruleFunc (k # ks))"
      using c c1 by (auto simp: b observed_Cons set_set_Add split: option.splits)
    moreover have "set (w_userSecurityGroupList w')
        = set (w_userSecurityGroupList w) \<union> observedGroups client (backingRules ruleFunc (k # ks))"
      using g g1 by (auto simp: b observed_Cons set_foldl_set_Add)
    moreover have "set (w_ports w') = set (w_ports w) \<union> observedPorts (backingRules ruleFunc (k # ks))"
      using p p1 by (auto simp: b observed_Cons set_set_Add split: if_splits)
    moreover have "distinct (w_cidrList w) \<longrightarrow> distinct (w_cidrList w')"
      using dc c1 by (auto simp: distinct_set_Add split: option.splits)
    moreover have "distinct (w_userSecurityGroupList w) \<longrightarrow> distinct (w_userSecurityGroupList w')"
      using dg g1 by (auto simp: distinct_foldl_set_Add)
    moreover have "distinct (w_ports w) \<longrightarrow> distinct (w_ports w')"
      using dp p1 by (auto simp: distinct_set_Add)
    ultimately show ?thesis by blast
  qed
qed

text \<open>
  C1 (confirmed). When every backing rule of a rule block is readable, the pass returns a
  block (it does not fail), and its port set is: empty, if the observed CIDR, port and
  group sets have the declared sizes while the number of backing rules differs from
  \<open>(cidrLen + userSecurityGroupLen) * portsLen\<close>; in every other case the observed port
  set, that is the port ranges of the TCP and UDP backing rules, unchanged. For the CIDRs
  A and B with the ports 80 and 443 the port set returned is empty when A:80, A:443 and
  B:80 are the backing rules, and is 80, 443 when all four rules are there.
\<close>

theorem readRule_ports_policy:
  assumes "\<forall>r\<in>set (backingRules ruleFunc (ids rule)). readable client r"
  shows "\<exists>rule'. readRule client ruleFunc rule = Inr rule'
           \<and> distinct (ports rule')
           \<and> set (ports rule') =
               (if card (observedCIDRs (backingRules ruleFunc (ids rule))) = length (cidr_list rule)
                   \<and> card (observedPorts (backingRules ruleFunc (ids rule))) = length (ports rule)
                   \<and> card (observedGroups client (backingRules ruleFunc (ids rule)))
                       = length (user_security_group_list rule)
                   \<and> length (backingRules ruleFunc (ids rule)) \<noteq>
                        (length (cidr_list rule) + length (user_security_group_list rule))
                        * length (ports rule)
                then {} else observedPorts (backingRules ruleFunc (ids rule)))"
proof -
  let ?B = "backingRules ruleFunc (ids rule)"
  from walk_observed [OF assms, of "walkInit rule"]
  obtain w where w: "walk client ruleFunc rule = Inr w"
    and a: "w_actualLen w = length ?B"
    and c: "set (w_cidrList w) = observedCIDRs ?B" and dc: "distinct (w_cidrList w)"
    and g: "set (w_userSecurityGroupList w) = observedGroups client ?B"
    and dg: "distinct (w_userSecurityGroupList w)"
    and p: "set (w_ports w) = observedPorts ?B" and dp: "distinct (w_ports w)"
    unfolding walk_def by (auto simp: walkInit_def)
  have l: "length (w_cidrList w) = card (observedCIDRs ?B)"
    "length (w_userSecurityGroupList w) = card (observedGroups client ?B)"
    "length (w_ports w) = card (observedPorts ?B)"
    using c dc g dg p dp by (metis distinct_card)+
  show ?thesis
    unfolding readRule_walk [OF w]
    by (auto simp: l a p dp eq_commute [of "length ?B"])
qed

lemma upper_tcp: "ToUpper ''tcp'' = ''TCP''"
  by (simp add: ToUpper_def upperChar_def)

lemma step_tcp:
  "ruleFunc key = Some (tcpRule i network port) \<Longrightarrow>
     readRuleStep client ruleFunc w key =
       Inr (w\<lparr>w_rule := (w_rule w)\<lparr>protocol := ''TCP'', description := []\<rparr>,
               w_actualLen := w_actualLen w + 1,
               w_cidrList := set_Add network (w_cidrList w),
               w_userSecurityGroupList := w_userSecurityGroupList w,
               w_ports := set_Add (decimal port) (w_ports w)\<rparr>)"
  by (simp add: readRuleStep_def tcpRule_def emptyRule_def upper_tcp HasPrefix_def
      defaultString_def portText_def Let_def)

lemma drift_lookup:
  "driftRules ''r1_tcp_10.0.0.0/8_80-80'' = Some (tcpRule ''r1'' ''10.0.0.0/8'' 80)"
  "driftRules ''r2_tcp_10.0.0.0/8_443-443'' = Some (tcpRule ''r2'' ''10.0.0.0/8'' 443)"
  "driftRules ''r3_tcp_172.16.0.0/12_80-80'' = Some (tcpRule ''r3'' ''172.16.0.0/12'' 80)"
  "driftRules ''r4_tcp_172.16.0.0/12_443-443'' = None"
  by (simp_all add: driftRules_def)

lemma decimal_ports: "decimal 80 = ''80''" "decimal 443 = ''443''"
  by (simp_all add: decimal.simps)

lemma drift_walk: "walk exampleClient driftRules driftTemplate = Inr driftWalk"
  by (simp add: walk_def walkInit_def driftTemplate_def driftWalk_def drift_lookup step_tcp
      step_absent decimal_ports set_Add_def)

lemma tcpRule_fields:
  "Network (tcpRule i network port) = Some network"
  "isTCPorUDP (tcpRule i network port)"
  "portText (tcpRule i network port) = decimal port"
  "groupNames client (tcpRule i network port) = []"
  "readable client (tcpRule i network port)"
  by (simp_all add: tcpRule_def emptyRule_def isTCPorUDP_def portText_def groupNames_def
      readable_def upper_tcp HasPrefix_def)

lemma full_lookup:
  "fullRules ''r1_tcp_10.0.0.0/8_80-80'' = Some (tcpRule ''r1'' ''10.0.0.0/8'' 80)"
  "fullRules ''r2_tcp_10.0.0.0/8_443-443'' = Some (tcpRule ''r2'' ''10.0.0.0/8'' 443)"
  "fullRules ''r3_tcp_172.16.0.0/12_80-80'' = Some (tcpRule ''r3'' ''172.16.0.0/12'' 80)"
  "fullRules ''r4_tcp_172.16.0.0/12_443-443'' = Some (tcpRule ''r4'' ''172.16.0.0/12'' 443)"
  by (simp_all add: fullRules_def drift_lookup)

lemma drift_backing:
  "backingRules driftRules (ids driftTemplate)
     = [tcpRule ''r1'' ''10.0.0.0/8'' 80, tcpRule ''r2'' ''10.0.0.0/8'' 443,
        tcpRule ''r3'' ''172.16.0.0/12'' 80]"
  by (simp add: driftTemplate_def backingRules_Cons backingRules_Nil drift_lookup)

lemma full_backing:
  "backingRules fullRules (ids driftTemplate)
     = [tcpRule ''r1'' ''10.0.0.0/8'' 80, tcpRule ''r2'' ''10.0.0.0/8'' 443,
        tcpRule ''r3'' ''172.16.0.0/12'' 80, tcpRule ''r4'' ''172.16.0.0/12'' 443]"
  by (simp add: driftTemplate_def backingRules_Cons backingRules_Nil full_lookup)

lemma drift_fields:
  "cidr_list driftTemplate = [''10.0.0.0/8'', ''172.16.0.0/12'']"
  "ports driftTemplate = [''80'', ''443'']" "user_security_group_list driftTemplate = []"
  by (simp_all add: driftTemplate_def)

lemma drift_observed:
  "observedCIDRs (backingRules driftRules (ids driftTemplate)) = {''10.0.0.0/8'', ''172.16.0.0/12''}"
  "observedPorts (backingRules driftRules (ids driftTemplate)) = {''80'', ''443''}"
  "observedGroups client (backingRules driftRules (ids driftTemplate)) = {}"
  "length (backingRules driftRules (ids driftTemplate)) = 3"
  by (auto simp: drift_backing observed_Cons observed_Nil tcpRule_fields decimal_ports)

lemma full_observed:
  "observedCIDRs (backingRules fullRules (ids driftTemplate)) = {''10.0.0.0/8'', ''172.16.0.0/12''}"
  "observedPorts (backingRules fullRules (ids driftTemplate)) = {''80'', ''443''}"
  "observedGroups client (backingRules fullRules (ids driftTemplate)) = {}"
  "length (backingRules fullRules (ids driftTemplate)) = 4"
  by (auto simp: full_backing observed_Cons observed_Nil tcpRule_fields decimal_ports)

lemma example_cards:
  "card {''10.0.0.0/8'', ''172.16.0.0/12''} = 2" "card {''80'', ''443''} = 2"
  by simp_all

theorem readRule_ports_policy_witness:
  "(\<exists>rule'. readRule exampleClient driftRules driftTemplate = Inr rule' \<and> set (ports rule') = {})
   \<and> (\<exists>rule'. readRule exampleClient fullRules driftTemplate = Inr rule'
         \<and> set (ports rule') = {''80'', ''443''})"
proof
  have "\<forall>r\<in>set (backingRules driftRules (ids driftTemplate)). readable exampleClient r"
    by (simp add: drift_backing tcpRule_fields)
  from readRule_ports_policy [OF this]
  show "\<exists>rule'. readRule exampleClient driftRules driftTemplate = Inr rule' \<and> set (ports rule') = {}"
    unfolding drift_observed drift_fields example_cards by auto
next
  have "\<forall>r\<in>set (backingRules fullRules (ids driftTemplate)). readable exampleClient r"
    by (simp add: full_backing tcpRule_fields)
  from readRule_ports_policy [OF this]
  show "\<exists>rule'. readRule exampleClient fullRules driftTemplate = Inr rule'
          \<and> set (ports rule') = {''80'', ''443''}"
    unfolding full_observed drift_fields example_cards by auto
qed

lemma filter_present_idem:
  "filter (\<lambda>k. \<not> (k \<in> set xs \<and> ruleFunc k = None)) xs = filter (\<lambda>k. ruleFunc k \<noteq> None) xs"
  by (rule filter_cong) auto

lemma walk_final_ids:
  assumes "walk client ruleFunc rule = Inr w"
  shows "w_ids w = filter (\<lambda>k. ruleFunc k \<noteq> None) (ids rule)"
proof -
  have "w_ids (walkInit rule) = ids rule" by (simp add: walkInit_def)
  with walk_ids [OF assms [unfolded walk_def]]
  have "w_ids w = filter (\<lambda>k. \<not> (k \<in> set (ids rule) \<and> ruleFunc k = None)) (ids rule)"
    by (simp only:)
  then show ?thesis by (simp only: filter_present_idem)
qed

text \<open>
  A second walk, over the surviving identifiers of a first walk and from a rule block
  with the same declared protocol, description and ICMP fields as the first walk left,
  ends in the same state.
\<close>

lemma walk_again:
  assumes w: "walk client ruleFunc rule = Inr w"
    and ids2: "ids rule2 = filter (\<lambda>k. ruleFunc k \<noteq> None) (ids rule)"
    and same: "(protocol rule2 = protocol rule \<and> description rule2 = description rule
                \<and> icmp_code rule2 = icmp_code rule \<and> icmp_type rule2 = icmp_type rule)
               \<or> (protocol rule2 = protocol (w_rule w) \<and> description rule2 = description (w_rule w)
                \<and> icmp_code rule2 = icmp_code (w_rule w) \<and> icmp_type rule2 = icmp_type (w_rule w))"
  shows "\<exists>v. walk client ruleFunc rule2 = Inr v \<and> observed v = observed w \<and> w_ids v = w_ids w
           \<and> protocol (w_rule v) = protocol (w_rule w)
           \<and> description (w_rule v) = description (w_rule w)
           \<and> icmp_code (w_rule v) = icmp_code (w_rule w)
           \<and> icmp_type (w_rule v) = icmp_type (w_rule w)"
proof -
  have o: "observed (walkInit rule2) = observed (walkInit rule)"
    by (simp add: observed_def walkInit_def)
  have c: "coupled rule rule2 (w_rule (walkInit rule)) (w_rule (walkInit rule2))"
    by (simp add: walkInit_def coupled_init)
  from walk_sim [OF w [unfolded walk_def] o c]
  obtain v where v: "foldE (readRuleStep client ruleFunc) (walkInit rule2)
                       (filter (\<lambda>k. ruleFunc k \<noteq> None) (ids rule)) = Inr v"
    and ov: "observed v = observed w" and iv: "w_ids v = w_ids (walkInit rule2)"
    and cv: "coupled rule rule2 (w_rule w) (w_rule v)"
    by blast
  from v ids2 have wv: "walk client ruleFunc rule2 = Inr v"
    by (simp add: walk_def)
  from walk_final_ids [OF w] iv ids2 have "w_ids v = w_ids w"
    by (simp add: walkInit_def)
  moreover from same cv
  have "protocol (w_rule v) = protocol (w_rule w) \<and> description (w_rule v) = description (w_rule w)
        \<and> icmp_code (w_rule v) = icmp_code (w_rule w) \<and> icmp_type (w_rule v) = icmp_type (w_rule w)"
    unfolding coupled_def by auto
  ultimately show ?thesis using wv ov by blast
qed

text \<open>
  C6 (confirmed). A pass that ends without error keeps exactly the identifiers that have a
  backing rule, and returns what it would return had the other identifiers not been in
  the block: they contribute nothing. When no identifier has a backing rule the pass
  returns the block with empty \<^verbatim>\<open>ids\<close>, \<^verbatim>\<open>ports\<close>, \<^verbatim>\<open>cidr_list\<close> and
  \<^verbatim>\<open>user_security_group_list\<close>, and the other attributes as they were.
\<close>

theorem readRule_drops_absent_ids:
  "(readRule client ruleFunc rule = Inr rule' \<longrightarrow>
      ids rule' = filter (\<lambda>k. ruleFunc k \<noteq> None) (ids rule)
      \<and> readRule client ruleFunc (rule\<lparr>ids := filter (\<lambda>k. ruleFunc k \<noteq> None) (ids rule)\<rparr>)
          = Inr rule')
   \<and> ((\<forall>k\<in>set (ids rule). ruleFunc k = None) \<longrightarrow>
        readRule client ruleFunc rule
          = Inr (rule\<lparr>ids := [], ports := [], cidr_list := [], user_security_group_list := []\<rparr>))"
proof (intro conjI impI)
  let ?rule2 = "rule\<lparr>ids := filter (\<lambda>k. ruleFunc k \<noteq> None) (ids rule)\<rparr>"
  assume r: "readRule client ruleFunc rule = Inr rule'"
  then obtain w where w: "walk client ruleFunc rule = Inr w"
    by (blast dest: readRule_InrD)
  note iw = walk_final_ids [OF w]
  from r show "ids rule' = filter (\<lambda>k. ruleFunc k \<noteq> None) (ids rule)"
    unfolding readRule_walk [OF w] using iw by auto
  from walk_again [OF w, of ?rule2]
  obtain v where v: "walk client ruleFunc ?rule2 = Inr v"
    and ov: "observed v = observed w" and iv: "w_ids v = w_ids w"
    and sv: "protocol (w_rule v) = protocol (w_rule w)"
      "description (w_rule v) = description (w_rule w)"
      "icmp_code (w_rule v) = icmp_code (w_rule w)"
      "icmp_type (w_rule v) = icmp_type (w_rule w)"
    by auto
  from ov have o: "w_actualLen v = w_actualLen w" "w_cidrList v = w_cidrList w"
    "w_userSecurityGroupList v = w_userSecurityGroupList w" "w_ports v = w_ports w"
    by (simp_all add: observed_def)
  have "readRule client ruleFunc ?rule2 = readRule client ruleFunc rule"
    unfolding readRule_walk [OF v] readRule_walk [OF w]
    by (simp add: o iv template_eqI [OF sv])
  with r show "readRule client ruleFunc ?rule2 = Inr rule'" by simp
next
  assume "\<forall>k\<in>set (ids rule). ruleFunc k = None"
  then have "walk client ruleFunc rule
               = Inr ((walkInit rule)\<lparr>w_ids := filter (\<lambda>k. k \<notin> set (ids rule))
                                                  (w_ids (walkInit rule))\<rparr>)"
    unfolding walk_def by (rule walk_all_absent)
  from readRule_walk [OF this]
  show "readRule client ruleFunc rule
          = Inr (rule\<lparr>ids := [], ports := [], cidr_list := [], user_security_group_list := []\<rparr>)"
    by (simp add: walkInit_def)
qed

lemma noRules_absent: "\<forall>k\<in>set (ids driftTemplate). noRules k = None"
  by (simp add: noRules_def)

lemma drift_once: "readRule exampleClient driftRules driftTemplate = Inr driftOnce"
  unfolding readRule_walk [OF drift_walk]
  by (simp add: driftWalk_def driftTemplate_def driftOnce_def)

theorem readRule_drops_absent_ids_witness:
  "ids driftOnce = [''r1_tcp_10.0.0.0/8_80-80'', ''r2_tcp_10.0.0.0/8_443-443'',
                    ''r3_tcp_172.16.0.0/12_80-80'']
   \<and> readRule exampleClient driftRules (driftTemplate\<lparr>ids := ids driftOnce\<rparr>) = Inr driftOnce
   \<and> readRule exampleClient noRules driftTemplate
       = Inr (driftTemplate\<lparr>ids := [], ports := [], cidr_list := [],
                user_security_group_list := []\<rparr>)"
proof -
  have p: "filter (\<lambda>k. driftRules k \<noteq> None) (ids driftTemplate) = ids driftOnce"
    by (simp add: driftTemplate_def driftOnce_def drift_lookup)
  from readRule_drops_absent_ids [of exampleClient driftRules driftTemplate driftOnce]
    drift_once
  have "readRule exampleClient driftRules (driftTemplate\<lparr>ids := ids driftOnce\<rparr>) = Inr driftOnce"
    by (simp only: p)
  moreover from readRule_drops_absent_ids [of exampleClient noRules driftTemplate] noRules_absent
  have "readRule exampleClient noRules driftTemplate
       = Inr (driftTemplate\<lparr>ids := [], ports := [], cidr_list := [],
                user_security_group_list := []\<rparr>)"
    by blast
  moreover have "ids driftOnce = [''r1_tcp_10.0.0.0/8_80-80'', ''r2_tcp_10.0.0.0/8_443-443'',
                    ''r3_tcp_172.16.0.0/12_80-80'']"
    by (simp add: driftOnce_def)
  ultimately show ?thesis by simp
qed

lemma ports_update_eq:
  fixes a :: RuleTemplate
  shows "a\<lparr>ids := i, ports := p, cidr_list := c, user_security_group_list := u\<rparr>
           = a\<lparr>ids := i, ports := q, cidr_list := c, user_security_group_list := u\<rparr>
         \<longleftrightarrow> p = q"
  by (cases a) simp

text \<open>
  When a second pass over the result of a first pass returns that result again: exactly
  when the first walk observed no port, or the number of surviving identifiers equals
  (observed CIDRs + observed groups) times observed ports.
\<close>

lemma readRule_second_pass_same_iff:
  assumes w: "walk client ruleFunc rule = Inr w"
  shows "\<exists>rule1. readRule client ruleFunc rule = Inr rule1
           \<and> (readRule client ruleFunc rule1 = Inr rule1 \<longleftrightarrow>
                w_ports w = []
                \<or> (length (cidr_list rule1) + length (user_security_group_list rule1))
                     * length (w_ports w) = length (ids rule1))"
proof -
  define P1 where "P1 =
    (if length (w_cidrList w) = length (cidr_list rule)
        \<and> length (w_ports w) = length (ports rule)
        \<and> length (w_userSecurityGroupList w) = length (user_security_group_list rule)
        \<and> (length (cidr_list rule) + length (user_security_group_list rule))
             * length (ports rule) \<noteq> w_actualLen w
     then [] else w_ports w)"
  define rule1 where "rule1 = (w_rule w)\<lparr>ids := w_ids w, ports := P1,
    cidr_list := w_cidrList w, user_security_group_list := w_userSecurityGroupList w\<rparr>"
  have r1: "readRule client ruleFunc rule = Inr rule1"
    unfolding readRule_walk [OF w] rule1_def P1_def ..
  have f1: "ids rule1 = w_ids w" "ports rule1 = P1" "cidr_list rule1 = w_cidrList w"
    "user_security_group_list rule1 = w_userSecurityGroupList w"
    "protocol rule1 = protocol (w_rule w)" "description rule1 = description (w_rule w)"
    "icmp_code rule1 = icmp_code (w_rule w)" "icmp_type rule1 = icmp_type (w_rule w)"
    by (simp_all add: rule1_def)
  have n: "w_actualLen w = length (ids rule1)"
    using walk_actualLen [OF w [unfolded walk_def]] walk_final_ids [OF w]
    by (simp add: f1 walkInit_def)
  have "ids rule1 = filter (\<lambda>k. ruleFunc k \<noteq> None) (ids rule)"
    using walk_final_ids [OF w] by (simp add: f1)
  from walk_again [OF w this] f1(5-8)
  obtain v where v: "walk client ruleFunc rule1 = Inr v"
    and ov: "observed v = observed w" and iv: "w_ids v = w_ids w"
    and sv: "protocol (w_rule v) = protocol (w_rule w)"
      "description (w_rule v) = description (w_rule w)"
      "icmp_code (w_rule v) = icmp_code (w_rule w)"
      "icmp_type (w_rule v) = icmp_type (w_rule w)"
    by auto
  from ov have o: "w_actualLen v = w_actualLen w" "w_cidrList v = w_cidrList w"
    "w_userSecurityGroupList v = w_userSecurityGroupList w" "w_ports v = w_ports w"
    by (simp_all add: observed_def)
  define P2 where "P2 =
    (if length (w_ports w) = length P1
        \<and> (length (w_cidrList w) + length (w_userSecurityGroupList w)) * length P1
             \<noteq> w_actualLen w
     then [] else w_ports w)"
  have r2: "readRule client ruleFunc rule1
              = Inr ((w_rule w)\<lparr>ids := w_ids w, ports := P2,
                  cidr_list := w_cidrList w,
                  user_security_group_list := w_userSecurityGroupList w\<rparr>)"
    unfolding readRule_walk [OF v]
    by (simp add: o iv f1 P2_def template_eqI [OF sv])
  have "readRule client ruleFunc rule1 = Inr rule1 \<longleftrightarrow> P2 = P1"
    unfolding r2 by (simp add: rule1_def ports_update_eq)
  also have "\<dots> \<longleftrightarrow> w_ports w = []
      \<or> (length (w_cidrList w) + length (w_userSecurityGroupList w)) * length (w_ports w)
           = w_actualLen w"
    unfolding P1_def P2_def by auto
  finally show ?thesis using r1 by (simp add: f1 n)
qed

lemma drift_walk_once:
  "walk exampleClient driftRules driftOnce = Inr (driftWalk\<lparr>w_rule := driftOnce\<rparr>)"
  by (simp add: walk_def walkInit_def driftOnce_def driftTemplate_def driftWalk_def
      drift_lookup step_tcp decimal_ports set_Add_def)

lemma drift_twice: "readRule exampleClient driftRules driftOnce = Inr driftTwice"
  unfolding readRule_walk [OF drift_walk_once]
  by (simp add: driftWalk_def driftTemplate_def driftOnce_def driftTwice_def)

lemma drift_walk_twice:
  "walk exampleClient driftRules driftTwice = Inr (driftWalk\<lparr>w_rule := driftTwice\<rparr>)"
  by (simp add: walk_def walkInit_def driftTwice_def driftOnce_def driftTemplate_def driftWalk_def
      drift_lookup step_tcp decimal_ports set_Add_def)

lemma drift_thrice: "readRule exampleClient driftRules driftTwice = Inr driftOnce"
  unfolding readRule_walk [OF drift_walk_twice]
  by (simp add: driftWalk_def driftTemplate_def driftOnce_def driftTwice_def)

text \<open>
  C4 (code bug). The block declares the CIDRs A and B with the ports 80 and 443; B:443 has
  no backing rule. The first pass clears the ports, as the comments in \<^verbatim>\<open>readRules\<close> intend:
  the block differs from its declaration and is recreated. The second pass, over the
  result of the first and the same backing rules, compares with the zero ports it finds
  declared and returns the observed ports: the block is the declared one again, B:443
  still missing. A third pass clears the ports again.
\<close>

theorem readRule_second_pass_hides_drift:
  "driftRules ''r4_tcp_172.16.0.0/12_443-443'' = None
   \<and> readRule exampleClient driftRules driftTemplate = Inr driftOnce
   \<and> ports driftOnce = []
   \<and> readRule exampleClient driftRules driftOnce = Inr driftTwice
   \<and> driftTwice = driftTemplate\<lparr>ids := ids driftOnce\<rparr>
   \<and> driftTwice \<noteq> driftOnce
   \<and> readRule exampleClient driftRules driftTwice = Inr driftOnce"
proof -
  have "driftTwice = driftTemplate\<lparr>ids := ids driftOnce\<rparr>"
    by (simp add: driftTwice_def driftOnce_def driftTemplate_def)
  moreover have p: "ports driftOnce = []" "ports driftTwice = [''80'', ''443'']"
    by (simp_all add: driftOnce_def driftTwice_def)
  moreover from p have "driftTwice \<noteq> driftOnce" by auto
  ultimately show ?thesis using drift_once drift_twice drift_thrice drift_lookup(4) by simp
qed

subsection \<open>Keys within one expansion\<close>











































text \<open>The ICMP key leaves the peer out: under one backing ID two peers get one key.\<close>

lemma icmp_key_without_peer:
  "ruleToID client (icmpRuleA\<lparr>ID := Some i\<rparr>) = ruleToID client (icmpRuleB\<lparr>ID := Some i\<rparr>)"
  using icmp_keys [where client = client and fd = None and i = i]
  by (simp add: icmpRuleA_def icmpRuleB_def emptyRule_def)

end
